theory Spec2Isabelle
  imports Complex_Main "HOL-Library.Sublist" "HOL-Library.Char_ord"
    "HOL-Library.Signed_Division" "HOL-Library.Log_Nat"
begin

section \<open>Strings\<close>

text \<open>
  A Go \<open>string\<close> is a sequence of bytes, and so is a HOL \<open>string\<close>.  The functions of
  package \<open>strings\<close> that the engine calls are modelled by what their documentation
  says they return.
\<close>

text \<open>\<open>strings.Index(s, substr)\<close>: the index of the first instance of \<open>substr\<close> in
  \<open>s\<close>, or \<open>-1\<close>.\<close>

fun Index :: "string \<Rightarrow> string \<Rightarrow> int" where
  "Index [] sub = (if sub = [] then 0 else - 1)"
| "Index (c # cs) sub =
     (if prefix sub (c # cs) then 0
      else (let i = Index cs sub in if i = - 1 then - 1 else i + 1))"

text \<open>\<open>strings.LastIndex(s, substr)\<close>: the index of the last instance, or \<open>-1\<close>.\<close>

fun LastIndex :: "string \<Rightarrow> string \<Rightarrow> int" where
  "LastIndex [] sub = (if sub = [] then 0 else - 1)"
| "LastIndex (c # cs) sub =
     (let i = LastIndex cs sub in
      if i \<noteq> - 1 then i + 1 else if prefix sub (c # cs) then 0 else - 1)"

text \<open>\<open>strings.Contains(s, substr)\<close> is \<open>Index(s, substr) >= 0\<close>.\<close>

definition Contains :: "string \<Rightarrow> string \<Rightarrow> bool" where
  "Contains s sub = (Index s sub \<ge> 0)"

text \<open>
  \<open>strings.Split(s, sep)\<close> for a separator that is not empty: the substrings between
  the instances of \<open>sep\<close>, scanned from the left without overlap.  (The engine's only
  call passes \<open>" "\<close>.  With an empty separator Go explodes \<open>s\<close> into its UTF-8
  sequences; the model then returns the bytes one by one, which is the same on ASCII.)
\<close>

function genSplit :: "string \<Rightarrow> string \<Rightarrow> string \<Rightarrow> string list" where
  "genSplit sep acc [] = [acc]"
| "genSplit sep acc (c # cs) =
     (if sep \<noteq> [] \<and> prefix sep (c # cs)
      then acc # genSplit sep [] (drop (length sep) (c # cs))
      else genSplit sep (acc @ [c]) cs)"
  by pat_completeness auto
termination
  by (relation "measure (\<lambda>(sep, acc, s). length s)") auto

definition Split :: "string \<Rightarrow> string \<Rightarrow> string list" where
  "Split s sep = (if sep = [] then map (\<lambda>c. [c]) s else genSplit sep [] s)"

text \<open>
  \<open>strings.ToLower\<close>.  Go first scans the bytes: a string of ASCII bytes only is
  lowered byte by byte (\<open>c += 'a' - 'A'\<close> for \<open>'A' <= c && c <= 'Z'\<close>); any other
  string goes through \<open>strings.Map(unicode.ToLower, s)\<close>, whose Unicode tables are
  not part of the engine and are taken as the parameter \<open>ul\<close>.
\<close>

fun isASCII :: "string \<Rightarrow> bool" where
  "isASCII [] = True"
| "isASCII (c # cs) = ((of_char c :: nat) < 128 \<and> isASCII cs)"

definition lowerByte :: "char \<Rightarrow> char" where
  "lowerByte c =
     (if CHR ''A'' \<le> c \<and> c \<le> CHR ''Z''
      then char_of (of_char c + (32 :: nat))
      else c)"

definition ToLower :: "(string \<Rightarrow> string) \<Rightarrow> string \<Rightarrow> string" where
  "ToLower ul s = (if isASCII s then map lowerByte s else ul s)"

section \<open>Data model\<close>

text \<open>
  A \<open>time.Time\<close> is modelled by its instant, in nanoseconds on the wall clock.  A
  \<open>float64\<close> is modelled by the real number it denotes (the engine never produces an
  infinity or a NaN); the arithmetic on them rounds, see \<open>f64_round\<close> below.  A pointer
  field (\<open>*string\<close>, \<open>*int\<close>) is an option, \<open>None\<close> for \<open>nil\<close>.  A
  \<open>json.RawMessage\<close> is the bytes of the field as they stand in the file, empty when
  the field is absent.
\<close>

type_synonym Time = int
type_synonym float64 = real

record Entity =
  Name :: string
  Context :: string
  Sources :: "string list"
  SpanYears :: string
  Status :: string
  Note :: string
  EmotionalValence :: string

record Gazetteer =
  People :: "Entity list"
  Projects :: "Entity list"
  Places :: "Entity list"
  Concepts :: "Entity list"

record State =
  Energy :: string
  Mood :: string
  Environment :: string
  WorkVolatility :: string

record Intentions =
  Explicit :: "string list"
  Implicit :: "string list"

record InertiaContext =
  Date :: string
  Gazetteer :: Gazetteer
  State :: State
  Intentions :: Intentions

record Task =
  ID :: string
  Content :: string
  Description :: string
  Priority :: int
  ParentID :: "string option"
  AddedAt :: Time
  UpdatedAt :: Time
  Labels :: "string list"
  ProjectID :: string

record Decision =
  TaskID :: string
  Action :: string
  Priority :: "int option"
  NewContent :: "string option"
  Subtasks :: "string list"
  Reasoning :: string
  InertiaScore :: float64

record TaskContext =
  Task :: Task
  RelatedPeople :: "Entity list"
  RelatedProjects :: "Entity list"
  RelatedConcepts :: "Entity list"
  State :: State
  AgeDays :: int
  HistoricalWeight :: float64

section \<open>Leaf filter\<close>

text \<open>A Go \<open>map[string]bool\<close>; indexing a missing key yields \<open>false\<close>.\<close>

definition map_index :: "(string \<rightharpoonup> bool) \<Rightarrow> string \<Rightarrow> bool" where
  "map_index m k = (case m k of None \<Rightarrow> False | Some b \<Rightarrow> b)"

text \<open>The first loop of \<open>FilterLeafNodes\<close>: record every parent identifier.\<close>

fun FilterLeafNodes_parents :: "Task list \<Rightarrow> (string \<rightharpoonup> bool) \<Rightarrow> (string \<rightharpoonup> bool)" where
  "FilterLeafNodes_parents [] parentIDs = parentIDs"
| "FilterLeafNodes_parents (task # tasks) parentIDs =
     (case ParentID task of
        None \<Rightarrow> FilterLeafNodes_parents tasks parentIDs
      | Some p \<Rightarrow> FilterLeafNodes_parents tasks (parentIDs(p \<mapsto> True)))"

text \<open>The second loop: append every task whose identifier was not recorded.\<close>

fun FilterLeafNodes_leaves :: "(string \<rightharpoonup> bool) \<Rightarrow> Task list \<Rightarrow> Task list \<Rightarrow> Task list" where
  "FilterLeafNodes_leaves parentIDs [] leafTasks = leafTasks"
| "FilterLeafNodes_leaves parentIDs (task # tasks) leafTasks =
     FilterLeafNodes_leaves parentIDs tasks
       (if \<not> map_index parentIDs (ID task) then leafTasks @ [task] else leafTasks)"

definition FilterLeafNodes :: "Task list \<Rightarrow> Task list" where
  "FilterLeafNodes tasks =
     FilterLeafNodes_leaves (FilterLeafNodes_parents tasks Map.empty) tasks []"

text \<open>The set of identifiers that appear as some task's parent identifier.\<close>

definition parent_id_set :: "Task list \<Rightarrow> string set" where
  "parent_id_set tasks = {p. Some p \<in> set (map ParentID tasks)}"

section \<open>float64 arithmetic\<close>

text \<open>
  IEEE 754 binary64 with the default rounding: a real number is rounded to the nearest
  multiple of the quantum of its binade, ties to the even multiple.  The binade of
  \<open>x\<close> is \<open>\<lfloor>log\<^sub>2 \<bar>x\<bar>\<rfloor>\<close>, computed from the bit length of an integer; below
  \<open>2\<^sup>-\<^sup>1\<^sup>0\<^sup>2\<^sup>2\<close> the quantum stays \<open>2\<^sup>-\<^sup>1\<^sup>0\<^sup>7\<^sup>4\<close> (subnormal numbers).  Overflow to
  an infinity is not modelled: the engine's operands are hour counts of an
  \<open>int64\<close> duration, below \<open>2\<^sup>2\<^sup>2\<close> in magnitude.
\<close>

definition pow2 :: "int \<Rightarrow> real" where
  "pow2 e = (if 0 \<le> e then 2 ^ nat e else 1 / 2 ^ nat (- e))"

definition roundEven :: "real \<Rightarrow> int" where
  "roundEven t =
     (let f = \<lfloor>t\<rfloor>; r = t - of_int f in
      if r < 1 / 2 then f else if 1 / 2 < r then f + 1 else if even f then f else f + 1)"

definition f64_exponent :: "real \<Rightarrow> int" where
  "f64_exponent x =
     (if 1 \<le> \<bar>x\<bar> then bitlen \<lfloor>\<bar>x\<bar>\<rfloor> - 1 else - bitlen (\<lceil>1 / \<bar>x\<bar>\<rceil> - 1))"

definition f64_round :: "real \<Rightarrow> float64" where
  "f64_round x =
     (if x = 0 then 0
      else (let e = max (f64_exponent x) (- 1022); q = pow2 (e - 52)
            in q * of_int (roundEven (x / q))))"

text \<open>The conversion \<open>float64(n)\<close> of an integer, and \<open>+\<close> and \<open>/\<close> on \<open>float64\<close>.\<close>

definition f64_of_int :: "int \<Rightarrow> float64" where
  "f64_of_int n = f64_round (of_int n)"

definition f64_add :: "float64 \<Rightarrow> float64 \<Rightarrow> float64" where
  "f64_add a b = f64_round (a + b)"

definition f64_div :: "float64 \<Rightarrow> float64 \<Rightarrow> float64" where
  "f64_div a b = f64_round (a / b)"

text \<open>The conversion \<open>int(f)\<close> of a \<open>float64\<close> discards the fraction.\<close>

definition int_of_f64 :: "float64 \<Rightarrow> int" where
  "int_of_f64 f = (if 0 \<le> f then \<lfloor>f\<rfloor> else \<lceil>f\<rceil>)"

section \<open>Durations\<close>

text \<open>
  A \<open>time.Duration\<close> is an \<open>int64\<close> count of nanoseconds.  \<open>Time.Sub\<close> returns the
  difference of the two instants, or the largest or smallest duration when the
  difference does not fit.  \<open>Duration.Hours\<close> is
  \<^verbatim>\<open>hour := d / Hour; nsec := d % Hour; return float64(hour) + float64(nsec)/(60*60*1e9)\<close>,
  where \<open>/\<close> and \<open>%\<close> on integers truncate toward zero.
\<close>

definition maxDuration :: int where
  "maxDuration = 2 ^ 63 - 1"

definition minDuration :: int where
  "minDuration = - (2 ^ 63)"

definition Sub :: "Time \<Rightarrow> Time \<Rightarrow> int" where
  "Sub t u =
     (let d = t - u in
      if d > maxDuration then maxDuration else if d < minDuration then minDuration else d)"

definition Hour :: int where
  "Hour = 3600000000000"

definition Hours :: "int \<Rightarrow> float64" where
  "Hours d =
     (let hour = d sdiv Hour; nsec = d smod Hour
      in f64_add (f64_of_int hour) (f64_div (f64_of_int nsec) 3600000000000))"

text \<open>One day, in nanoseconds: 24 hours.\<close>

definition Day :: int where
  "Day = 86400000000000"

section \<open>Contextualizer\<close>

text \<open>
  \<open>Entity.GetSpanYears\<close>.  The decoder \<open>json.Unmarshal(raw, &num)\<close> into a
  \<open>float64\<close> belongs to the Go library and is the parameter \<open>unmarshal\<close>: it returns
  \<open>None\<close> for an error and otherwise the value \<open>num\<close> holds afterwards.
\<close>

definition GetSpanYears :: "(string \<Rightarrow> float64 option) \<Rightarrow> Entity \<Rightarrow> float64" where
  "GetSpanYears unmarshal e =
     (if length (SpanYears e) = 0 then 0
      else (case unmarshal (SpanYears e) of Some num \<Rightarrow> num | None \<Rightarrow> 0))"

text \<open>The loops over people and over projects: append the entities whose lowered name
  is contained in the task text.\<close>

fun relatedByName :: "(string \<Rightarrow> string) \<Rightarrow> string \<Rightarrow> Entity list \<Rightarrow> Entity list \<Rightarrow> Entity list" where
  "relatedByName ul taskText [] related = related"
| "relatedByName ul taskText (person # rest) related =
     relatedByName ul taskText rest
       (if Contains taskText (ToLower ul (Name person)) then related @ [person] else related)"

text \<open>The inner loop over the keywords of a concept, which stops at the first keyword
  contained in the task text.\<close>

fun anyKeyword :: "string \<Rightarrow> string list \<Rightarrow> bool" where
  "anyKeyword taskText [] = False"
| "anyKeyword taskText (kw # keywords) =
     (if Contains taskText kw then True else anyKeyword taskText keywords)"

fun relatedByKeyword :: "(string \<Rightarrow> string) \<Rightarrow> string \<Rightarrow> Entity list \<Rightarrow> Entity list \<Rightarrow> Entity list" where
  "relatedByKeyword ul taskText [] related = related"
| "relatedByKeyword ul taskText (concept # rest) related =
     relatedByKeyword ul taskText rest
       (if anyKeyword taskText (Split (ToLower ul (Name concept)) '' '')
        then related @ [concept] else related)"

text \<open>The loop over the related concepts that keeps the largest span seen so far.\<close>

fun maxSpanLoop :: "(string \<Rightarrow> float64 option) \<Rightarrow> Entity list \<Rightarrow> float64 \<Rightarrow> float64" where
  "maxSpanLoop unmarshal [] maxSpan = maxSpan"
| "maxSpanLoop unmarshal (concept # rest) maxSpan =
     (let years = GetSpanYears unmarshal concept
      in maxSpanLoop unmarshal rest (if years > maxSpan then years else maxSpan))"

text \<open>
  \<open>ContextualizeTask\<close>.  Besides the task and the context it depends on the Unicode
  lowering \<open>ul\<close>, on the decoder \<open>unmarshal\<close> and on the value \<open>now\<close> that
  \<open>NowFunc()\<close> returns.
\<close>

definition taskText :: "(string \<Rightarrow> string) \<Rightarrow> Task \<Rightarrow> string" where
  "taskText ul task = ToLower ul (Content task @ '' '' @ Description task)"

definition ContextualizeTask ::
  "(string \<Rightarrow> string) \<Rightarrow> (string \<Rightarrow> float64 option) \<Rightarrow> Time \<Rightarrow> Task \<Rightarrow> InertiaContext \<Rightarrow> TaskContext" where
  "ContextualizeTask ul unmarshal now task context =
     (let text = taskText ul task;
          relatedPeople = relatedByName ul text (People (Gazetteer context)) [];
          relatedProjects = relatedByName ul text (Projects (Gazetteer context)) [];
          relatedConcepts = relatedByKeyword ul text (Concepts (Gazetteer context)) [];
          ageDays = int_of_f64 (f64_div (Hours (Sub now (AddedAt task))) 24);
          maxSpan = maxSpanLoop unmarshal relatedConcepts 0
      in \<lparr>Task = task,
          RelatedPeople = relatedPeople,
          RelatedProjects = relatedProjects,
          RelatedConcepts = relatedConcepts,
          State = InertiaContext.State context,
          AgeDays = ageDays,
          HistoricalWeight = maxSpan\<rparr>)"

section \<open>Matching, as the specification words it\<close>

text \<open>
  Two bytes are the same letter when they are equal or when one is an upper-case ASCII
  letter and the other the lower-case letter next to it in the alphabet, 32 above.  A
  name occurs in a text, letter case ignored, when some contiguous part of the text
  has the letters of the name.
\<close>

definition same_letter :: "char \<Rightarrow> char \<Rightarrow> bool" where
  "same_letter x y =
     (x = y
      \<or> (65 \<le> (of_char x :: nat) \<and> (of_char x :: nat) \<le> 90 \<and> (of_char y :: nat) = of_char x + 32)
      \<or> (65 \<le> (of_char y :: nat) \<and> (of_char y :: nat) \<le> 90 \<and> (of_char x :: nat) = of_char y + 32))"

definition occurs_ignoring_case :: "string \<Rightarrow> string \<Rightarrow> bool" where
  "occurs_ignoring_case name text =
     (\<exists>before part after. text = before @ part @ after \<and> list_all2 same_letter part name)"

text \<open>
  The keywords of a name are the words that, written one after the other with a single
  space between them, give the name; no keyword contains a space, and a keyword may be
  empty.
\<close>

fun join_spaces :: "string list \<Rightarrow> string" where
  "join_spaces [] = []"
| "join_spaces [w] = w"
| "join_spaces (w # v # ws) = w @ '' '' @ join_spaces (v # ws)"

definition keywords_of :: "string \<Rightarrow> string list \<Rightarrow> bool" where
  "keywords_of name ws =
     (ws \<noteq> [] \<and> list_all (\<lambda>w. CHR '' '' \<notin> set w) ws \<and> join_spaces ws = name)"

text \<open>A string of ASCII bytes only.\<close>

definition ascii :: "string \<Rightarrow> bool" where
  "ascii s = list_all (\<lambda>c. (of_char c :: nat) < 128) s"

section \<open>A model of the JSON decoder\<close>

text \<open>
  Package \<open>encoding/json\<close> is not part of the engine.  The engine's functions
  take its decoders as parameters, and the theorems about them hold for every decoder.
  For the concrete runs a decoder is needed; this section models the library's one from
  its documentation: the grammar of RFC 8259 with Go's nesting limit, the unquoting of
  strings, and the rules that store a value into a \<open>float64\<close> and into the struct of
  \<open>ParseDecisionResponse\<close>.  The text of the library's error messages is not
  modelled; the model reports the kind of error.
\<close>

subsection \<open>Tokens\<close>

datatype token =
  TLBrace | TRBrace | TLBrack | TRBrack | TColon | TComma
  | TString string | TNumber string | TTrue | TFalse | TNull

datatype numst = NNeg | NZero | NInt | NDot | NFrac | NE | NESign | NExp

datatype lexst =
  LIdle
  | LStr string
  | LEsc string
  | LUni string nat
  | LNum numst string
  | LLit string token

definition isDigit :: "char \<Rightarrow> bool" where
  "isDigit c = (CHR ''0'' \<le> c \<and> c \<le> CHR ''9'')"

definition isHex :: "char \<Rightarrow> bool" where
  "isHex c = (isDigit c \<or> (CHR ''a'' \<le> c \<and> c \<le> CHR ''f'') \<or> (CHR ''A'' \<le> c \<and> c \<le> CHR ''F''))"

definition isSpace :: "char \<Rightarrow> bool" where
  "isSpace c = (c = CHR '' '' \<or> c = CHR 0x09 \<or> c = CHR 0x0D \<or> c = CHR 0x0A)"

text \<open>A number may end after \<open>0\<close>, after the integer digits, after the fraction digits
  and after the exponent digits.\<close>

fun numFinal :: "numst \<Rightarrow> bool" where
  "numFinal NZero = True"
| "numFinal NInt = True"
| "numFinal NFrac = True"
| "numFinal NExp = True"
| "numFinal _ = False"

text \<open>The next state of a number on a byte that continues it.\<close>

definition numStep :: "numst \<Rightarrow> char \<Rightarrow> numst option" where
  "numStep ns c =
     (case ns of
        NNeg \<Rightarrow> if c = CHR ''0'' then Some NZero else if isDigit c then Some NInt else None
      | NZero \<Rightarrow> if c = CHR ''.'' then Some NDot
                 else if c = CHR ''e'' \<or> c = CHR ''E'' then Some NE else None
      | NInt \<Rightarrow> if isDigit c then Some NInt else if c = CHR ''.'' then Some NDot
                else if c = CHR ''e'' \<or> c = CHR ''E'' then Some NE else None
      | NDot \<Rightarrow> if isDigit c then Some NFrac else None
      | NFrac \<Rightarrow> if isDigit c then Some NFrac
                 else if c = CHR ''e'' \<or> c = CHR ''E'' then Some NE else None
      | NE \<Rightarrow> if c = CHR ''+'' \<or> c = CHR ''-'' then Some NESign
              else if isDigit c then Some NExp else None
      | NESign \<Rightarrow> if isDigit c then Some NExp else None
      | NExp \<Rightarrow> if isDigit c then Some NExp else None)"

text \<open>A byte between tokens: white space, punctuation, or the first byte of a string,
  a number or a literal.\<close>

definition idleStep :: "token list \<Rightarrow> char \<Rightarrow> (lexst \<times> token list) option" where
  "idleStep acc c =
     (if isSpace c then Some (LIdle, acc)
      else if c = CHR ''{'' then Some (LIdle, TLBrace # acc)
      else if c = CHR ''}'' then Some (LIdle, TRBrace # acc)
      else if c = CHR ''['' then Some (LIdle, TLBrack # acc)
      else if c = CHR '']'' then Some (LIdle, TRBrack # acc)
      else if c = CHR '':'' then Some (LIdle, TColon # acc)
      else if c = CHR '','' then Some (LIdle, TComma # acc)
      else if c = CHR 0x22 then Some (LStr [], acc)
      else if c = CHR ''-'' then Some (LNum NNeg [c], acc)
      else if c = CHR ''0'' then Some (LNum NZero [c], acc)
      else if isDigit c then Some (LNum NInt [c], acc)
      else if c = CHR ''t'' then Some (LLit ''rue'' TTrue, acc)
      else if c = CHR ''f'' then Some (LLit ''alse'' TFalse, acc)
      else if c = CHR ''n'' then Some (LLit ''ull'' TNull, acc)
      else None)"

text \<open>One byte of input.  A string token keeps its body as written, escapes included;
  the body is checked here and unquoted later.\<close>

definition lexStep :: "lexst \<Rightarrow> token list \<Rightarrow> char \<Rightarrow> (lexst \<times> token list) option" where
  "lexStep st acc c =
     (case st of
        LIdle \<Rightarrow> idleStep acc c
      | LStr s \<Rightarrow>
          if c = CHR 0x22 then Some (LIdle, TString s # acc)
          else if c = CHR 0x5C then Some (LEsc (s @ [c]), acc)
          else if (of_char c :: nat) < 32 then None
          else Some (LStr (s @ [c]), acc)
      | LEsc s \<Rightarrow>
          if c = CHR ''u'' then Some (LUni (s @ [c]) 4, acc)
          else if c \<in> set [CHR 0x22, CHR 0x5C, CHR ''/'', CHR ''b'', CHR ''f'', CHR ''n'',
                 CHR ''r'', CHR ''t'']
          then Some (LStr (s @ [c]), acc)
          else None
      | LUni s n \<Rightarrow>
          if isHex c then Some (if n = 1 then LStr (s @ [c]) else LUni (s @ [c]) (n - 1), acc)
          else None
      | LNum ns lit \<Rightarrow>
          (case numStep ns c of
             Some ns' \<Rightarrow> Some (LNum ns' (lit @ [c]), acc)
           | None \<Rightarrow> if numFinal ns then idleStep (TNumber lit # acc) c else None)
      | LLit rest tok \<Rightarrow>
          (case rest of
             [] \<Rightarrow> None
           | r # rs \<Rightarrow>
               if c \<noteq> r then None
               else if rs = [] then Some (LIdle, tok # acc)
               else Some (LLit rs tok, acc)))"

fun lex :: "lexst \<Rightarrow> token list \<Rightarrow> string \<Rightarrow> token list option" where
  "lex st acc [] =
     (case st of
        LIdle \<Rightarrow> Some (rev acc)
      | LNum ns lit \<Rightarrow> if numFinal ns then Some (rev (TNumber lit # acc)) else None
      | _ \<Rightarrow> None)"
| "lex st acc (c # cs) =
     (case lexStep st acc c of
        None \<Rightarrow> None
      | Some (st', acc') \<Rightarrow> lex st' acc' cs)"

subsection \<open>Values\<close>

datatype json =
  JNull | JBool bool | JNumber string | JString string
  | JArray "json list" | JObject "(string \<times> json) list"

text \<open>An open array with its elements so far, or an open object with its members so
  far and the key that waits for its value; both lists are in reverse.\<close>

datatype frame =
  FArr "json list"
  | FObj "(string \<times> json) list" "string option"

datatype pstate =
  PValue | PValueOrEnd | PKeyOrEnd | PKey | PColon | PEndValue | PDone json

definition maxNestingDepth :: nat where
  "maxNestingDepth = 10000"

text \<open>A value is complete: it is the whole text, or an element of the innermost open
  array, or the value of the waiting key of the innermost open object.\<close>

definition deliver :: "json \<Rightarrow> frame list \<Rightarrow> (pstate \<times> frame list) option" where
  "deliver v stack =
     (case stack of
        [] \<Rightarrow> Some (PDone v, [])
      | FArr es # rest \<Rightarrow> Some (PEndValue, FArr (v # es) # rest)
      | FObj ms (Some k) # rest \<Rightarrow> Some (PEndValue, FObj ((k, v) # ms) None # rest)
      | FObj ms None # rest \<Rightarrow> None)"

definition open_frame :: "frame \<Rightarrow> pstate \<Rightarrow> frame list \<Rightarrow> (pstate \<times> frame list) option" where
  "open_frame f st stack =
     (if length (f # stack) \<le> maxNestingDepth then Some (st, f # stack) else None)"

definition beginValue :: "frame list \<Rightarrow> token \<Rightarrow> (pstate \<times> frame list) option" where
  "beginValue stack t =
     (case t of
        TLBrace \<Rightarrow> open_frame (FObj [] None) PKeyOrEnd stack
      | TLBrack \<Rightarrow> open_frame (FArr []) PValueOrEnd stack
      | TString s \<Rightarrow> deliver (JString s) stack
      | TNumber s \<Rightarrow> deliver (JNumber s) stack
      | TTrue \<Rightarrow> deliver (JBool True) stack
      | TFalse \<Rightarrow> deliver (JBool False) stack
      | TNull \<Rightarrow> deliver JNull stack
      | _ \<Rightarrow> None)"

definition beginKey :: "frame list \<Rightarrow> token \<Rightarrow> (pstate \<times> frame list) option" where
  "beginKey stack t =
     (case (t, stack) of
        (TString k, FObj ms None # rest) \<Rightarrow> Some (PColon, FObj ms (Some k) # rest)
      | _ \<Rightarrow> None)"

definition parseStep :: "pstate \<Rightarrow> frame list \<Rightarrow> token \<Rightarrow> (pstate \<times> frame list) option" where
  "parseStep st stack t =
     (case st of
        PValue \<Rightarrow> beginValue stack t
      | PValueOrEnd \<Rightarrow>
          (case (t, stack) of
             (TRBrack, FArr es # rest) \<Rightarrow> deliver (JArray (rev es)) rest
           | _ \<Rightarrow> beginValue stack t)
      | PKeyOrEnd \<Rightarrow>
          (case (t, stack) of
             (TRBrace, FObj ms None # rest) \<Rightarrow> deliver (JObject (rev ms)) rest
           | _ \<Rightarrow> beginKey stack t)
      | PKey \<Rightarrow> beginKey stack t
      | PColon \<Rightarrow> (if t = TColon then Some (PValue, stack) else None)
      | PEndValue \<Rightarrow>
          (case (t, stack) of
             (TComma, FArr es # rest) \<Rightarrow> Some (PValue, stack)
           | (TRBrack, FArr es # rest) \<Rightarrow> deliver (JArray (rev es)) rest
           | (TComma, FObj ms None # rest) \<Rightarrow> Some (PKey, stack)
           | (TRBrace, FObj ms None # rest) \<Rightarrow> deliver (JObject (rev ms)) rest
           | _ \<Rightarrow> None)
      | PDone v \<Rightarrow> None)"

fun parseTokens :: "pstate \<Rightarrow> frame list \<Rightarrow> token list \<Rightarrow> json option" where
  "parseTokens st stack [] = (case st of PDone v \<Rightarrow> Some v | _ \<Rightarrow> None)"
| "parseTokens st stack (t # ts) =
     (case parseStep st stack t of
        None \<Rightarrow> None
      | Some (st', stack') \<Rightarrow> parseTokens st' stack' ts)"

text \<open>The value of a JSON text, or \<open>None\<close> for a syntax error.  String bodies are
  still quoted.\<close>

definition parseJSON :: "string \<Rightarrow> json option" where
  "parseJSON s = (case lex LIdle [] s of None \<Rightarrow> None | Some ts \<Rightarrow> parseTokens PValue [] ts)"

subsection \<open>Unquoting a string body\<close>

definition hexVal :: "char \<Rightarrow> nat" where
  "hexVal c =
     (if isDigit c then of_char c - 48
      else if CHR ''a'' \<le> c \<and> c \<le> CHR ''f'' then of_char c - 87
      else of_char c - 55)"

text \<open>\<open>getu4\<close>: the code unit of an escape \<open>\uXXXX\<close> at the head of the text.\<close>

definition getu4 :: "string \<Rightarrow> nat option" where
  "getu4 s =
     (case s of
        b # u # h1 # h2 # h3 # h4 # _ \<Rightarrow>
          if b = CHR 0x5C \<and> u = CHR ''u'' \<and> isHex h1 \<and> isHex h2 \<and> isHex h3 \<and> isHex h4
          then Some (((hexVal h1 * 16 + hexVal h2) * 16 + hexVal h3) * 16 + hexVal h4)
          else None
      | _ \<Rightarrow> None)"

definition replacementChar :: string where
  "replacementChar = [CHR 0xEF, CHR 0xBF, CHR 0xBD]"

text \<open>\<open>utf8.EncodeRune\<close>: the UTF-8 bytes of a code point; a surrogate or a value
  beyond \<open>U+10FFFF\<close> is encoded as \<open>U+FFFD\<close>.\<close>

definition encodeRune :: "nat \<Rightarrow> string" where
  "encodeRune r =
     (if r < 0x80 then [char_of r]
      else if r < 0x800 then [char_of (0xC0 + r div 64), char_of (0x80 + r mod 64)]
      else if (0xD800 \<le> r \<and> r < 0xE000) \<or> 0x10FFFF < r then replacementChar
      else if r < 0x10000
      then [char_of (0xE0 + r div 4096), char_of (0x80 + r div 64 mod 64), char_of (0x80 + r mod 64)]
      else [char_of (0xF0 + r div 262144), char_of (0x80 + r div 4096 mod 64),
            char_of (0x80 + r div 64 mod 64), char_of (0x80 + r mod 64)])"

text \<open>\<open>utf8.DecodeRune\<close>, as far as the unquoting needs it: the length of the
  well-formed UTF-8 sequence at the head of the text, \<open>0\<close> when there is none.\<close>

definition inRange :: "nat \<Rightarrow> nat \<Rightarrow> char \<Rightarrow> bool" where
  "inRange lo hi c = (lo \<le> of_char c \<and> (of_char c :: nat) \<le> hi)"

definition runeLen :: "string \<Rightarrow> nat" where
  "runeLen s =
     (case s of
        [] \<Rightarrow> 0
      | c0 # s1 \<Rightarrow>
          (let b = (of_char c0 :: nat);
               lo = (if b = 0xE0 then 0xA0 else if b = 0xF0 then 0x90 else 0x80);
               hi = (if b = 0xED then 0x9F else if b = 0xF4 then 0x8F else 0xBF);
               n = (if b < 0x80 then 1 else if b < 0xC2 then 0 else if b < 0xE0 then 2
                    else if b < 0xF0 then 3 else if b < 0xF5 then 4 else 0)
           in if n = 1 then 1
              else if n = 0 \<or> length s < n then 0
              else if inRange lo hi (s ! 1) \<and> list_all (inRange 0x80 0xBF) (take (n - 2) (drop 2 s))
              then n else 0))"

definition unescapeByte :: "char \<Rightarrow> char" where
  "unescapeByte e =
     (if e = CHR ''b'' then CHR 0x08
      else if e = CHR ''f'' then CHR 0x0C
      else if e = CHR ''n'' then CHR 0x0A
      else if e = CHR ''r'' then CHR 0x0D
      else if e = CHR ''t'' then CHR 0x09
      else e)"

text \<open>
  The value of a string body that the lexer has accepted.  An escape \<open>\uXXXX\<close> that is
  a high surrogate followed by an escape that is a low surrogate yields their code
  point; any other surrogate yields \<open>U+FFFD\<close>; so does a byte that starts no
  well-formed UTF-8 sequence.
\<close>

function unquote :: "string \<Rightarrow> string" where
  "unquote [] = []"
| "unquote (c # cs) =
     (if c = CHR 0x5C then
        (case cs of
           [] \<Rightarrow> []
         | e # rest \<Rightarrow>
             if e = CHR ''u'' then
               (case getu4 (c # cs) of
                  None \<Rightarrow> []
                | Some rr \<Rightarrow>
                    if 0xD800 \<le> rr \<and> rr < 0xE000 then
                      (case getu4 (drop 4 rest) of
                         None \<Rightarrow> replacementChar @ unquote (drop 4 rest)
                       | Some rr1 \<Rightarrow>
                           if rr < 0xDC00 \<and> 0xDC00 \<le> rr1 \<and> rr1 < 0xE000
                           then encodeRune ((rr - 0xD800) * 1024 + (rr1 - 0xDC00) + 0x10000)
                                  @ unquote (drop 10 rest)
                           else replacementChar @ unquote (drop 4 rest))
                    else encodeRune rr @ unquote (drop 4 rest))
             else unescapeByte e # unquote rest)
      else if runeLen (c # cs) = 0 then replacementChar @ unquote cs
      else take (runeLen (c # cs)) (c # cs) @ unquote (drop (runeLen (c # cs)) (c # cs)))"
  by pat_completeness auto
termination
  by (relation "measure length") auto

subsection \<open>Numbers\<close>

fun digitsVal :: "nat \<Rightarrow> string \<Rightarrow> nat" where
  "digitsVal acc [] = acc"
| "digitsVal acc (c # cs) = digitsVal (acc * 10 + (of_char c - 48)) cs"

definition pow10 :: "int \<Rightarrow> real" where
  "pow10 e = (if 0 \<le> e then 10 ^ nat e else 1 / 10 ^ nat (- e))"

text \<open>The real number that a number literal of the grammar denotes.\<close>

definition literalValue :: "string \<Rightarrow> real" where
  "literalValue lit =
     (let neg = (lit \<noteq> [] \<and> hd lit = CHR ''-'');
          body = (if neg then tl lit else lit);
          ip = takeWhile isDigit body;
          r1 = dropWhile isDigit body;
          dot = (r1 \<noteq> [] \<and> hd r1 = CHR ''.'');
          fp = (if dot then takeWhile isDigit (tl r1) else []);
          r2 = (if dot then dropWhile isDigit (tl r1) else r1);
          r3 = (if r2 = [] then [] else tl r2);
          eneg = (r3 \<noteq> [] \<and> hd r3 = CHR ''-'');
          ed = (if r3 \<noteq> [] \<and> (hd r3 = CHR ''-'' \<or> hd r3 = CHR ''+'') then tl r3 else r3);
          e = (if eneg then - int (digitsVal 0 ed) else int (digitsVal 0 ed));
          m = of_nat (digitsVal 0 (ip @ fp)) * pow10 (e - int (length fp))
      in if neg then - m else m)"

text \<open>\<open>strconv.ParseFloat(lit, 64)\<close>: the nearest \<open>float64\<close>, or an error when it
  is out of range.\<close>

definition ParseFloat :: "string \<Rightarrow> float64 option" where
  "ParseFloat lit =
     (let f = f64_round (literalValue lit) in if \<bar>f\<bar> < 2 ^ 1024 then Some f else None)"

text \<open>\<open>strconv.ParseInt(lit, 10, 64)\<close> on a number literal: it must consist of an
  optional sign and digits and fit into 64 bits.\<close>

definition ParseInt :: "string \<Rightarrow> int option" where
  "ParseInt lit =
     (let neg = (lit \<noteq> [] \<and> hd lit = CHR ''-'');
          body = (if neg then tl lit else lit);
          n = (if neg then - int (digitsVal 0 body) else int (digitsVal 0 body))
      in if body \<noteq> [] \<and> list_all isDigit body \<and> - (2 ^ 63) \<le> n \<and> n < 2 ^ 63
         then Some n else None)"

subsection \<open>Decoding into a float64\<close>

text \<open>\<open>json.Unmarshal(raw, &num)\<close> for \<open>var num float64\<close>: a number is stored,
  \<open>null\<close> leaves \<open>num\<close> at zero, any other value is an error.\<close>

definition Unmarshal_float64 :: "string \<Rightarrow> float64 option" where
  "Unmarshal_float64 raw =
     (case parseJSON raw of
        Some (JNumber lit) \<Rightarrow> ParseFloat lit
      | Some JNull \<Rightarrow> Some 0
      | _ \<Rightarrow> None)"

subsection \<open>Decoding into the struct of ParseDecisionResponse\<close>

text \<open>The anonymous struct \<open>result\<close> that \<open>ParseDecisionResponse\<close> decodes into,
  with the JSON keys \<open>action\<close>, \<open>priority\<close>, \<open>new_content\<close>, \<open>subtasks\<close>,
  \<open>reasoning\<close> and \<open>inertia_score\<close>.\<close>

record result =
  Action :: string
  Priority :: "int option"
  NewContent :: "string option"
  Subtasks :: "string list"
  Reasoning :: string
  InertiaScore :: float64

definition zero_result :: result where
  "zero_result =
     \<lparr>Action = [], Priority = None, NewContent = None, Subtasks = [], Reasoning = [],
      InertiaScore = 0\<rparr>"

text \<open>
  A key selects the field whose name it equals when letter case is ignored.  The
  library folds the key: ASCII letters to upper case, and the two other runes that
  fold to an ASCII letter, \<open>U+017F\<close> to \<open>S\<close> and \<open>U+212A\<close> to \<open>K\<close>.
\<close>

definition upperByte :: "char \<Rightarrow> char" where
  "upperByte c =
     (if CHR ''a'' \<le> c \<and> c \<le> CHR ''z''
      then (case c of Char b0 b1 b2 b3 b4 b5 b6 b7 \<Rightarrow> Char b0 b1 b2 b3 b4 False b6 b7)
      else c)"

fun foldName :: "string \<Rightarrow> string" where
  "foldName [] = []"
| "foldName (c # cs) =
     (if c = CHR 0xC5 \<and> take 1 cs = [CHR 0xBF] then CHR ''S'' # foldName (drop 1 cs)
      else if c = CHR 0xE2 \<and> take 2 cs = [CHR 0x84, CHR 0xAA] then CHR ''K'' # foldName (drop 2 cs)
      else upperByte c # foldName cs)"

text \<open>The elements of \<open>subtasks\<close>, decoded into a fresh slice: a string is
  stored, \<open>null\<close> leaves the element empty, any other value is a type error.\<close>

fun decodeStrings :: "json list \<Rightarrow> string list option" where
  "decodeStrings [] = Some []"
| "decodeStrings (v # vs) =
     (case decodeStrings vs of
        None \<Rightarrow> None
      | Some ss \<Rightarrow>
          (case v of
             JString s \<Rightarrow> Some (unquote s # ss)
           | JNull \<Rightarrow> Some ([] # ss)
           | _ \<Rightarrow> None))"

text \<open>One member of the object: the updated struct, or \<open>None\<close> for a type error.  A
  key that selects no field is skipped.  \<open>null\<close> clears a pointer or a slice and
  leaves any other field as it is.\<close>

definition setField :: "string \<Rightarrow> json \<Rightarrow> result \<Rightarrow> result option" where
  "setField key v r =
     (let k = foldName (unquote key) in
      if k = ''ACTION'' then
        (case v of JString s \<Rightarrow> Some (r\<lparr>Action := unquote s\<rparr>) | JNull \<Rightarrow> Some r | _ \<Rightarrow> None)
      else if k = ''PRIORITY'' then
        (case v of
           JNumber lit \<Rightarrow>
             (case ParseInt lit of Some n \<Rightarrow> Some (r\<lparr>Priority := Some n\<rparr>) | None \<Rightarrow> None)
         | JNull \<Rightarrow> Some (r\<lparr>Priority := None\<rparr>)
         | _ \<Rightarrow> None)
      else if k = ''NEW_CONTENT'' then
        (case v of
           JString s \<Rightarrow> Some (r\<lparr>NewContent := Some (unquote s)\<rparr>)
         | JNull \<Rightarrow> Some (r\<lparr>NewContent := None\<rparr>)
         | _ \<Rightarrow> None)
      else if k = ''SUBTASKS'' then
        (case v of
           JArray vs \<Rightarrow>
             (case decodeStrings vs of Some ss \<Rightarrow> Some (r\<lparr>Subtasks := ss\<rparr>) | None \<Rightarrow> None)
         | JNull \<Rightarrow> Some (r\<lparr>Subtasks := []\<rparr>)
         | _ \<Rightarrow> None)
      else if k = ''REASONING'' then
        (case v of JString s \<Rightarrow> Some (r\<lparr>Reasoning := unquote s\<rparr>) | JNull \<Rightarrow> Some r | _ \<Rightarrow> None)
      else if k = ''INERTIA_SCORE'' then
        (case v of
           JNumber lit \<Rightarrow>
             (case ParseFloat lit of Some f \<Rightarrow> Some (r\<lparr>InertiaScore := f\<rparr>) | None \<Rightarrow> None)
         | JNull \<Rightarrow> Some r
         | _ \<Rightarrow> None)
      else Some r)"

text \<open>The members in their order; a later member overwrites an earlier one.  The
  library decodes on after a type error and reports the error at the end.\<close>

fun decodeMembers :: "(string \<times> json) list \<Rightarrow> result \<Rightarrow> result option" where
  "decodeMembers [] r = Some r"
| "decodeMembers ((key, v) # ms) r =
     (case setField key v r of
        None \<Rightarrow> (case decodeMembers ms r of None \<Rightarrow> None | Some _ \<Rightarrow> None)
      | Some r' \<Rightarrow> decodeMembers ms r')"

text \<open>\<open>json.Unmarshal([]byte(jsonStr), &result)\<close>: the error text on the left, the
  struct on the right.  A top-level \<open>null\<close> leaves the struct as it is; any other
  value that is not an object is a type error.\<close>

definition Unmarshal_result :: "string \<Rightarrow> string + result" where
  "Unmarshal_result jsonStr =
     (case parseJSON jsonStr of
        None \<Rightarrow> Inl ''invalid JSON syntax''
      | Some (JObject ms) \<Rightarrow>
          (case decodeMembers ms zero_result of
             None \<Rightarrow> Inl ''json: cannot unmarshal value into Go struct field''
           | Some r \<Rightarrow> Inr r)
      | Some JNull \<Rightarrow> Inr zero_result
      | Some _ \<Rightarrow> Inl ''json: cannot unmarshal value into Go value of type struct'')"

section \<open>Response parser\<close>

text \<open>
  A slice expression \<open>s[low:high]\<close> on a string panics at run time unless
  \<open>0 \<le> low \<le> high \<le> len(s)\<close>.  A panic is the left summand.
\<close>

datatype panic = SliceBoundsOutOfRange int int

definition slice :: "string \<Rightarrow> int \<Rightarrow> int \<Rightarrow> panic + string" where
  "slice s low high =
     (if 0 \<le> low \<and> low \<le> high \<and> high \<le> int (length s)
      then Inr (take (nat (high - low)) (drop (nat low) s))
      else Inl (SliceBoundsOutOfRange low high))"

text \<open>
  \<open>ParseDecisionResponse\<close>.  The parameter \<open>unmarshal\<close> is
  \<open>json.Unmarshal([]byte(jsonStr), &result)\<close>: it returns the text of the error, or
  the struct.  The slice of the response is the only operation that can panic, and
  nothing recovers from it.
\<close>

definition ParseDecisionResponse ::
  "(string \<Rightarrow> string + result) \<Rightarrow> string \<Rightarrow> string \<Rightarrow> panic + Decision" where
  "ParseDecisionResponse unmarshal response taskID =
     (let start = Index response ''{'';
          end' = LastIndex response ''}''
      in if start = - 1 \<or> end' = - 1
         then Inr \<lparr>TaskID = taskID, Action = ''skip'', Priority = None, NewContent = None,
                   Subtasks = [], Reasoning = ''Failed to parse LLM response'',
                   InertiaScore = 0\<rparr>
         else (case slice response start (end' + 1) of
                 Inl p \<Rightarrow> Inl p
               | Inr jsonStr \<Rightarrow>
                   (case unmarshal jsonStr of
                      Inl err \<Rightarrow>
                        Inr \<lparr>TaskID = taskID, Action = ''skip'', Priority = None,
                             NewContent = None, Subtasks = [],
                             Reasoning = ''JSON parse error: '' @ err, InertiaScore = 0\<rparr>
                    | Inr result \<Rightarrow>
                        Inr \<lparr>TaskID = taskID,
                             Action = result.Action result,
                             Priority = result.Priority result,
                             NewContent = result.NewContent result,
                             Subtasks = result.Subtasks result,
                             Reasoning = result.Reasoning result,
                             InertiaScore = result.InertiaScore result\<rparr>)))"

text \<open>The five action tags.\<close>

definition action_tags :: "string set" where
  "action_tags = {''skip'', ''decompose'', ''ice-box'', ''reprioritize'', ''recontextualize''}"

text \<open>The substring of the response from the first \<open>{\<close> to the last \<open>}\<close>, both
  included: the payload that the parser hands to the decoder.\<close>

definition jsonPayload :: "string \<Rightarrow> string" where
  "jsonPayload response =
     take (nat (LastIndex response ''}'' + 1 - Index response ''{''))
       (drop (nat (Index response ''{'')) response)"

section \<open>Decision executor\<close>




text \<open>
  The process invoker \<open>CommandRunner.Run(name, args...)\<close> acts on the world outside
  the engine: from a state of that world and the command line it yields the error, if
  any, and the next state.  What the engine does is recorded as a trace of effects:
  the command lines it runs and the lines it logs.
\<close>

datatype effect = Command "string list" | LogLine string

type_synonym 'w runner = "'w \<Rightarrow> string list \<Rightarrow> string option \<times> 'w"

text \<open>The pattern \<open>if err := CommandRunner.Run(...); err != nil { log.Printf(...) }\<close>:
  run the command, and log the message with the error when it fails.\<close>

definition runLogged ::
  "'w runner \<Rightarrow> string \<Rightarrow> string list \<Rightarrow> effect list \<times> 'w \<Rightarrow> effect list \<times> 'w" where
  "runLogged run message argv s =
     (case run (snd s) argv of
        (None, w) \<Rightarrow> (fst s @ [Command argv], w)
      | (Some err, w) \<Rightarrow> (fst s @ [Command argv, LogLine (message @ '': '' @ err)], w))"



text \<open>The command lines of a trace, in their order.\<close>

fun commands :: "effect list \<Rightarrow> string list list" where
  "commands [] = []"
| "commands (Command argv # es) = argv # commands es"
| "commands (LogLine l # es) = commands es"

section \<open>Sample values\<close>

text \<open>Go struct literals that name some fields leave the others at their zero
  value; the concrete runs below use such values.\<close>

definition sampleEntity :: "string \<Rightarrow> string \<Rightarrow> Entity" where
  "sampleEntity name spanYears =
     \<lparr>Name = name, Context = [], Sources = [], SpanYears = spanYears, Status = [], Note = [],
      EmotionalValence = []\<rparr>"

definition sampleTask :: "string \<Rightarrow> string \<Rightarrow> string option \<Rightarrow> Time \<Rightarrow> Task" where
  "sampleTask tid content parent added =
     \<lparr>ID = tid, Content = content, Description = [], Priority = 0, ParentID = parent,
      AddedAt = added, UpdatedAt = 0, Labels = [], ProjectID = []\<rparr>"

definition sampleContext :: "Entity list \<Rightarrow> Entity list \<Rightarrow> Entity list \<Rightarrow> InertiaContext" where
  "sampleContext people projects concepts =
     \<lparr>Date = [],
      Gazetteer = \<lparr>People = people, Projects = projects, Places = [], Concepts = concepts\<rparr>,
      State = \<lparr>Energy = [], Mood = [], Environment = [], WorkVolatility = []\<rparr>,
      Intentions = \<lparr>Explicit = [], Implicit = []\<rparr>\<rparr>"

section \<open>Command line\<close>

text \<open>
  \<open>main\<close> declares three flags, each with a default value, and calls
  \<open>flag.Parse()\<close>:
  \<^verbatim>\<open>contextFile := flag.String("context", "logs/inertia-context-2026-02-22.json", ...)\<close>,
  \<^verbatim>\<open>dryRun := flag.Bool("dry-run", false, ...)\<close> and
  \<^verbatim>\<open>maxConcurrency := flag.Int("concurrency", 10, ...)\<close>.
\<close>

record Flags =
  contextFile :: string
  dryRun :: bool
  maxConcurrency :: int

definition defaultContextFile :: string where
  "defaultContextFile = ''logs/inertia-context-2026-02-22.json''"

definition defaultFlags :: Flags where
  "defaultFlags = \<lparr>contextFile = defaultContextFile, dryRun = False, maxConcurrency = 10\<rparr>"

text \<open>
  Package \<open>flag\<close>, as documented: the arguments are read from the left; an argument
  \<open>-name\<close>, \<open>--name\<close>, \<open>-name=value\<close> or \<open>--name=value\<close> sets a flag; a flag
  that is not boolean takes the next argument as its value when it has none; the first
  argument that is no flag, or \<open>--\<close>, ends the parse.  An error ends the process
  (status 0 for \<open>-help\<close>, status 2 otherwise).  The integer of \<open>-concurrency\<close> is
  read by \<open>strconv.ParseInt\<close>, the parameter \<open>atoi\<close>.
\<close>

datatype flagError = ErrHelp | ErrFlag string

definition flagName :: "string \<Rightarrow> string" where
  "flagName s =
     takeWhile (\<lambda>c. c \<noteq> CHR ''='') (drop (if take 2 s = ''--'' then 2 else 1) s)"

definition flagValue :: "string \<Rightarrow> string option" where
  "flagValue s =
     (let body = drop (if take 2 s = ''--'' then 2 else 1) s
      in if CHR ''='' \<in> set body then Some (drop (length (flagName s) + 1) body) else None)"

definition ParseBool :: "string \<Rightarrow> bool option" where
  "ParseBool s =
     (if s \<in> set [''1'', ''t'', ''T'', ''TRUE'', ''true'', ''True''] then Some True
      else if s \<in> set [''0'', ''f'', ''F'', ''FALSE'', ''false'', ''False''] then Some False
      else None)"

text \<open>\<open>parseOne\<close>: the next flag.  It ends the parse, fails, or sets a flag and
  leaves the arguments that follow.\<close>

datatype parsed = Stop | Fail flagError | Next Flags "string list"

definition parseOne :: "(string \<Rightarrow> int option) \<Rightarrow> string list \<Rightarrow> Flags \<Rightarrow> parsed" where
  "parseOne atoi arguments fl =
     (case arguments of
        [] \<Rightarrow> Stop
      | s # args \<Rightarrow>
          if length s < 2 \<or> take 1 s \<noteq> ''-'' then Stop
          else if s = ''--'' then Stop
          else if flagName s = [] \<or> take 1 (flagName s) = ''-''
          then Fail (ErrFlag (''bad flag syntax: '' @ s))
          else if flagName s = ''context'' then
            (case flagValue s of
               Some v \<Rightarrow> Next (fl\<lparr>contextFile := v\<rparr>) args
             | None \<Rightarrow>
                 (case args of
                    [] \<Rightarrow> Fail (ErrFlag (''flag needs an argument: -'' @ flagName s))
                  | v # rest \<Rightarrow> Next (fl\<lparr>contextFile := v\<rparr>) rest))
          else if flagName s = ''dry-run'' then
            (case flagValue s of
               Some v \<Rightarrow>
                 (case ParseBool v of
                    Some b \<Rightarrow> Next (fl\<lparr>dryRun := b\<rparr>) args
                  | None \<Rightarrow> Fail (ErrFlag (''invalid boolean value for -'' @ flagName s)))
             | None \<Rightarrow> Next (fl\<lparr>dryRun := True\<rparr>) args)
          else if flagName s = ''concurrency'' then
            (case (case flagValue s of
                     Some v \<Rightarrow> Some (v, args)
                   | None \<Rightarrow> (case args of [] \<Rightarrow> None | v # rest \<Rightarrow> Some (v, rest)))
             of
               None \<Rightarrow> Fail (ErrFlag (''flag needs an argument: -'' @ flagName s))
             | Some (v, rest) \<Rightarrow>
                 (case atoi v of
                    Some n \<Rightarrow> Next (fl\<lparr>maxConcurrency := n\<rparr>) rest
                  | None \<Rightarrow> Fail (ErrFlag (''invalid value for flag -'' @ flagName s))))
          else if flagName s = ''help'' \<or> flagName s = ''h'' then Fail ErrHelp
          else Fail (ErrFlag (''flag provided but not defined: -'' @ flagName s)))"

lemma parseOne_shorter:
  "parseOne atoi arguments fl = Next fl' rest \<Longrightarrow> length rest < length arguments"
  by (auto simp: parseOne_def split: list.splits if_splits option.splits)

text \<open>\<open>Parse\<close>: the loop over \<open>parseOne\<close>.\<close>

function Parse :: "(string \<Rightarrow> int option) \<Rightarrow> string list \<Rightarrow> Flags \<Rightarrow> flagError + Flags" where
  "Parse atoi arguments fl =
     (case parseOne atoi arguments fl of
        Stop \<Rightarrow> Inr fl
      | Fail err \<Rightarrow> Inl err
      | Next fl' rest \<Rightarrow> Parse atoi rest fl')"
  by pat_completeness auto
termination
  by (relation "measure (\<lambda>(atoi, arguments, fl). length arguments)")
    (auto simp: parseOne_shorter)

declare Parse.simps [simp del]

text \<open>
  \<open>LoadContext\<close> reads the file and decodes it.  The file system
  (\<open>os.ReadFile\<close>) and the decoder of the context are parameters; each returns the
  text of its error on the left.
\<close>

definition LoadContext ::
  "(string \<Rightarrow> string + string) \<Rightarrow> (string \<Rightarrow> string + InertiaContext) \<Rightarrow> string
     \<Rightarrow> string + InertiaContext" where
  "LoadContext readFile unmarshal path =
     (case readFile path of
        Inl err \<Rightarrow> Inl (''read file: '' @ err)
      | Inr data \<Rightarrow>
          (case unmarshal data of
             Inl err \<Rightarrow> Inl (''unmarshal: '' @ err)
           | Inr ctx \<Rightarrow> Inr ctx))"

text \<open>
  The start of \<open>main\<close>, up to the loaded context: the process exits with a status
  (2 or 0 from the flags, 1 from \<open>log.Fatalf\<close> when the context does not load), or
  the run proceeds with the flags and the context.
\<close>

datatype startup = ExitStatus nat | Proceed Flags InertiaContext

definition main_startup ::
  "(string \<Rightarrow> int option) \<Rightarrow> (string \<Rightarrow> string + string) \<Rightarrow> (string \<Rightarrow> string + InertiaContext)
     \<Rightarrow> string list \<Rightarrow> startup" where
  "main_startup atoi readFile unmarshal args =
     (case Parse atoi args defaultFlags of
        Inl ErrHelp \<Rightarrow> ExitStatus 0
      | Inl (ErrFlag msg) \<Rightarrow> ExitStatus 2
      | Inr fl \<Rightarrow>
          (case LoadContext readFile unmarshal (contextFile fl) of
             Inl err \<Rightarrow> ExitStatus 1
           | Inr ctx \<Rightarrow> Proceed fl ctx))"

text \<open>A file system that holds one file, at the built-in path, and a decoder that
  accepts it.\<close>

definition onlyDefaultFile :: "string \<Rightarrow> string + string" where
  "onlyDefaultFile path =
     (if path = ''logs/inertia-context-2026-02-22.json'' then Inr ''{}''
      else Inl ''no such file or directory'')"

definition emptyContext :: "string \<Rightarrow> string + InertiaContext" where
  "emptyContext data = Inr (sampleContext [] [] [])"

section \<open>Decision requester\<close>

text \<open>
  \<open>CallAgentForDecision\<close> pipes the prompt to the reasoning engine through
  \<open>CommandRunner.RunWithStdin\<close> and turns the reply into a decision.  The reply is
  the error of the call (left) or its output (right); the decision depends on the task
  context through the task identifier only.
\<close>

definition CallAgentForDecision ::
  "(string \<Rightarrow> string + result) \<Rightarrow> string + string \<Rightarrow> TaskContext \<Rightarrow> panic + Decision" where
  "CallAgentForDecision unmarshal reply taskCtx =
     (case reply of
        Inl err \<Rightarrow>
          Inr \<lparr>TaskID = ID (Task taskCtx), Action = ''skip'', Priority = None,
               NewContent = None, Subtasks = [], Reasoning = ''LLM call failed: '' @ err,
               InertiaScore = 0\<rparr>
      | Inr output \<Rightarrow> ParseDecisionResponse unmarshal output (ID (Task taskCtx)))"

definition ProcessTask ::
  "(string \<Rightarrow> string) \<Rightarrow> (string \<Rightarrow> float64 option) \<Rightarrow> Time \<Rightarrow> (string \<Rightarrow> string + result)
     \<Rightarrow> InertiaContext \<Rightarrow> Task \<Rightarrow> string + string \<Rightarrow> panic + Decision" where
  "ProcessTask ul unmarshalSpan now unmarshal context task reply =
     CallAgentForDecision unmarshal reply (ContextualizeTask ul unmarshalSpan now task context)"

section \<open>Parallel dispatcher\<close>

text \<open>
  \<open>ProcessTasksParallel\<close> runs goroutines that share three objects: the channel
  \<open>sem\<close> of capacity \<open>maxConcurrency\<close>, the channel \<open>results\<close> of capacity
  \<open>len(tasks)\<close>, and the wait group.  Its executions are the interleavings of the
  steps of the dispatch loop, of the workers and of the goroutine that closes
  \<open>results\<close>.  A send on a channel whose buffer is full and a receive on a channel
  whose buffer is empty cannot step.

  A worker is at one of these places: \<open>Started\<close>, before it invokes the reasoning
  engine; \<open>Invoked\<close>, while the invocation is outstanding; \<open>Decided d\<close>, when
  \<open>ProcessTask\<close> has returned \<open>d\<close>; \<open>Published\<close>, after \<open>results <- decision\<close>;
  \<open>Released\<close>, after the deferred \<open><-sem\<close>; \<open>Exited\<close>, after the deferred
  \<open>wg.Done()\<close>.  When \<open>ProcessTask\<close> panics the worker sends no result; it runs
  its deferred calls, \<open>Panicking\<close> before \<open><-sem\<close> and \<open>Unwound\<close> after it, and
  after \<open>wg.Done()\<close> the panic ends the program.
\<close>

datatype place =
  Started | Invoked | Decided Decision | Published | Released | Exited
  | Panicking panic | Unwound panic

text \<open>The dispatch loop is before \<open>wg.Add(1)\<close>, before \<open>sem <- struct{}{}\<close> or
  before the \<open>go\<close> statement of the first pending task; after the loop the function
  collects the results, and then it has returned.\<close>

datatype loop = AtAdd | AtAcquire | AtGo | Collecting | Returned

record dispatcher =
  pc :: loop
  pending :: "Task list"
  workers :: "(Task \<times> place) list"
  sem :: nat
  results :: "Decision list"
  results_cap :: nat
  results_closed :: bool
  wg :: nat
  decisions :: "Decision list"
  panicked :: bool

definition ProcessTasksParallel_init :: "Task list \<Rightarrow> dispatcher" where
  "ProcessTasksParallel_init tasks =
     \<lparr>pc = AtAdd, pending = tasks, workers = [], sem = 0, results = [],
      results_cap = length tasks, results_closed = False, wg = 0, decisions = [],
      panicked = False\<rparr>"

text \<open>
  One step of one goroutine.  \<open>K\<close> is \<open>maxConcurrency\<close>; \<open>process task reply\<close> is
  what \<open>ProcessTask\<close> returns for the task when the engine's reply is \<open>reply\<close>.
  Nothing steps after a panic has ended the program.
\<close>

inductive ProcessTasksParallel_step ::
  "nat \<Rightarrow> (Task \<Rightarrow> string + string \<Rightarrow> panic + Decision) \<Rightarrow> dispatcher \<Rightarrow> dispatcher \<Rightarrow> bool"
  for K :: nat and process :: "Task \<Rightarrow> string + string \<Rightarrow> panic + Decision" where
  add:
    "\<not> panicked s \<Longrightarrow> pc s = AtAdd \<Longrightarrow> pending s = t # ts
      \<Longrightarrow> ProcessTasksParallel_step K process s (s\<lparr>wg := wg s + 1, pc := AtAcquire\<rparr>)"
| acquire:
    "\<not> panicked s \<Longrightarrow> pc s = AtAcquire \<Longrightarrow> sem s < K
      \<Longrightarrow> ProcessTasksParallel_step K process s (s\<lparr>sem := sem s + 1, pc := AtGo\<rparr>)"
| spawn:
    "\<not> panicked s \<Longrightarrow> pc s = AtGo \<Longrightarrow> pending s = t # ts
      \<Longrightarrow> ProcessTasksParallel_step K process s (s\<lparr>pending := ts, workers := workers s @ [(t, Started)], pc := AtAdd\<rparr>)"
| loop_end:
    "\<not> panicked s \<Longrightarrow> pc s = AtAdd \<Longrightarrow> pending s = []
      \<Longrightarrow> ProcessTasksParallel_step K process s (s\<lparr>pc := Collecting\<rparr>)"
| invoke:
    "\<not> panicked s \<Longrightarrow> i < length (workers s) \<Longrightarrow> workers s ! i = (t, Started)
      \<Longrightarrow> ProcessTasksParallel_step K process s (s\<lparr>workers := (workers s)[i := (t, Invoked)]\<rparr>)"
| reply:
    "\<not> panicked s \<Longrightarrow> i < length (workers s) \<Longrightarrow> workers s ! i = (t, Invoked)
      \<Longrightarrow> process t r = Inr d
      \<Longrightarrow> ProcessTasksParallel_step K process s (s\<lparr>workers := (workers s)[i := (t, Decided d)]\<rparr>)"
| panics:
    "\<not> panicked s \<Longrightarrow> i < length (workers s) \<Longrightarrow> workers s ! i = (t, Invoked)
      \<Longrightarrow> process t r = Inl p
      \<Longrightarrow> ProcessTasksParallel_step K process s (s\<lparr>workers := (workers s)[i := (t, Panicking p)]\<rparr>)"
| unwind_release:
    "\<not> panicked s \<Longrightarrow> i < length (workers s) \<Longrightarrow> workers s ! i = (t, Panicking p)
      \<Longrightarrow> 0 < sem s
      \<Longrightarrow> ProcessTasksParallel_step K process s (s\<lparr>workers := (workers s)[i := (t, Unwound p)], sem := sem s - 1\<rparr>)"
| unwind_done:
    "\<not> panicked s \<Longrightarrow> i < length (workers s) \<Longrightarrow> workers s ! i = (t, Unwound p)
      \<Longrightarrow> ProcessTasksParallel_step K process s (s\<lparr>wg := wg s - 1, panicked := True\<rparr>)"
| publish:
    "\<not> panicked s \<Longrightarrow> i < length (workers s) \<Longrightarrow> workers s ! i = (t, Decided d)
      \<Longrightarrow> length (results s) < results_cap s
      \<Longrightarrow> ProcessTasksParallel_step K process s
            (s\<lparr>workers := (workers s)[i := (t, Published)], results := results s @ [d]\<rparr>)"
| release:
    "\<not> panicked s \<Longrightarrow> i < length (workers s) \<Longrightarrow> workers s ! i = (t, Published)
      \<Longrightarrow> 0 < sem s
      \<Longrightarrow> ProcessTasksParallel_step K process s (s\<lparr>workers := (workers s)[i := (t, Released)], sem := sem s - 1\<rparr>)"
| finish:
    "\<not> panicked s \<Longrightarrow> i < length (workers s) \<Longrightarrow> workers s ! i = (t, Released)
      \<Longrightarrow> ProcessTasksParallel_step K process s (s\<lparr>workers := (workers s)[i := (t, Exited)], wg := wg s - 1\<rparr>)"
| close_results:
    "\<not> panicked s \<Longrightarrow> pc s = Collecting \<Longrightarrow> wg s = 0 \<Longrightarrow> \<not> results_closed s
      \<Longrightarrow> ProcessTasksParallel_step K process s (s\<lparr>results_closed := True\<rparr>)"
| collect:
    "\<not> panicked s \<Longrightarrow> pc s = Collecting \<Longrightarrow> results s = d # ds
      \<Longrightarrow> ProcessTasksParallel_step K process s (s\<lparr>results := ds, decisions := decisions s @ [d]\<rparr>)"
| return_decisions:
    "\<not> panicked s \<Longrightarrow> pc s = Collecting \<Longrightarrow> results s = [] \<Longrightarrow> results_closed s
      \<Longrightarrow> ProcessTasksParallel_step K process s (s\<lparr>pc := Returned\<rparr>)"

text \<open>The states that an execution of \<open>ProcessTasksParallel(tasks, context, K)\<close> can
  reach.\<close>

definition reachable ::
  "nat \<Rightarrow> (Task \<Rightarrow> string + string \<Rightarrow> panic + Decision) \<Rightarrow> Task list \<Rightarrow> dispatcher \<Rightarrow> bool" where
  "reachable K process tasks s =
     (ProcessTasksParallel_step K process)\<^sup>*\<^sup>* (ProcessTasksParallel_init tasks) s"

text \<open>A worker holds a slot of the semaphore from its start until it has released
  it; the dispatch loop holds the slot of the task it is about to start.\<close>

fun holding :: "place \<Rightarrow> bool" where
  "holding Started = True"
| "holding Invoked = True"
| "holding (Decided d) = True"
| "holding Published = True"
| "holding (Panicking p) = True"
| "holding Released = False"
| "holding Exited = False"
| "holding (Unwound p) = False"

definition holders :: "dispatcher \<Rightarrow> nat" where
  "holders s =
     length (filter (\<lambda>w. holding (snd w)) (workers s)) + (if pc s = AtGo then 1 else 0)"

text \<open>The invocations of the reasoning engine that are outstanding.\<close>

definition outstanding :: "dispatcher \<Rightarrow> nat" where
  "outstanding s = length (filter (\<lambda>w. snd w = Invoked) (workers s))"

text \<open>A run with the bound 1 and two tasks, up to the state in which the first worker
  has invoked the engine and the dispatch loop waits for the slot of the second task.\<close>

definition twoTasks :: "Task list" where
  "twoTasks = [sampleTask ''1'' ''first'' None 0, sampleTask ''2'' ''second'' None 0]"

definition processSample :: "Task \<Rightarrow> string + string \<Rightarrow> panic + Decision" where
  "processSample =
     ProcessTask (\<lambda>s. s) Unmarshal_float64 0 Unmarshal_result (sampleContext [] [] [])"

definition firstInvoked :: dispatcher where
  "firstInvoked =
     \<lparr>pc = AtAcquire, pending = [sampleTask ''2'' ''second'' None 0],
      workers = [(sampleTask ''1'' ''first'' None 0, Invoked)], sem = 1, results = [],
      results_cap = 2, results_closed = False, wg = 2, decisions = [], panicked = False\<rparr>"

section \<open>Leaf filter: proofs\<close>

lemma map_index_empty: "map_index Map.empty k = False"
  by (simp add: map_index_def)

lemma map_index_upd: "map_index (m(p \<mapsto> True)) k = (k = p \<or> map_index m k)"
  by (simp add: map_index_def)

lemma FilterLeafNodes_parents_index:
  "map_index (FilterLeafNodes_parents tasks m) k
     = (map_index m k \<or> Some k \<in> set (map ParentID tasks))"
proof (induction tasks arbitrary: m)
  case Nil
  show ?case by simp
next
  case (Cons t ts)
  show ?case
  proof (cases "ParentID t")
    case None
    then show ?thesis using Cons.IH [of m] by auto
  next
    case (Some p)
    have step: "FilterLeafNodes_parents (t # ts) m = FilterLeafNodes_parents ts (m(p \<mapsto> True))"
      using Some by simp
    have "Some k \<in> set (map ParentID (t # ts)) \<longleftrightarrow> k = p \<or> Some k \<in> set (map ParentID ts)"
      using Some by auto
    then show ?thesis
      unfolding step Cons.IH [of "m(p \<mapsto> True)"] map_index_upd by blast
  qed
qed

lemma FilterLeafNodes_leaves_filter:
  "FilterLeafNodes_leaves m tasks acc = acc @ filter (\<lambda>t. \<not> map_index m (ID t)) tasks"
  by (induction tasks arbitrary: acc) auto

text \<open>
  Claim C3.  For every task list the leaf filter returns the input list restricted to
  the tasks whose identifier is not in the parent-id set: the same tasks, in the same
  order, each as often as it occurs in the input.
\<close>

theorem FilterLeafNodes_exact:
  "FilterLeafNodes tasks = filter (\<lambda>t. ID t \<notin> parent_id_set tasks) tasks"
  by (simp add: FilterLeafNodes_def FilterLeafNodes_leaves_filter
      FilterLeafNodes_parents_index map_index_empty parent_id_set_def)

text \<open>The example of the engine's test: a parent, its child and a lone task.\<close>

lemma FilterLeafNodes_example:
  "FilterLeafNodes
     [sampleTask ''p1'' ''Parent'' None 0, sampleTask ''c1'' ''Child'' (Some ''p1'') 0,
      sampleTask ''l1'' ''Lone Task'' None 0]
   = [sampleTask ''c1'' ''Child'' (Some ''p1'') 0, sampleTask ''l1'' ''Lone Task'' None 0]"
  by (simp add: FilterLeafNodes_def sampleTask_def map_index_def)

section \<open>Strings: proofs\<close>

lemma Index_ge: "- 1 \<le> Index s sub"
  by (induction s) (auto simp: Let_def)

text \<open>For a single byte: the position of its first and of its last occurrence.\<close>

lemma Index_byte:
  "Index s [c] = (if c \<in> set s then int (length (takeWhile (\<lambda>x. x \<noteq> c) s)) else - 1)"
  by (induction s) (auto simp: Let_def)

lemma LastIndex_bounds: "- 1 \<le> LastIndex s [c] \<and> LastIndex s [c] < int (length s)"
  by (induction s) (auto simp: Let_def)

lemma LastIndex_found: "c \<in> set s \<Longrightarrow> LastIndex s [c] \<noteq> - 1"
proof (induction s)
  case Nil
  then show ?case by simp
next
  case (Cons x xs)
  then show ?case
    using LastIndex_bounds [of xs c] by (auto simp: Let_def)
qed

lemma LastIndex_byte:
  "LastIndex s [c]
     = (if c \<in> set s then int (length s) - 1 - int (length (takeWhile (\<lambda>x. x \<noteq> c) (rev s)))
        else - 1)"
proof (induction s)
  case Nil
  show ?case by simp
next
  case (Cons x xs)
  show ?case
  proof (cases "c \<in> set xs")
    case True
    then have "takeWhile (\<lambda>x. x \<noteq> c) (rev xs @ [x]) = takeWhile (\<lambda>x. x \<noteq> c) (rev xs)"
      by simp
    moreover have "LastIndex xs [c] \<noteq> - 1"
      using True by (rule LastIndex_found)
    ultimately show ?thesis using True Cons.IH by (simp add: Let_def)
  next
    case False
    have "takeWhile (\<lambda>x. x \<noteq> c) (rev xs @ [x]) = rev xs @ takeWhile (\<lambda>x. x \<noteq> c) [x]"
      by (rule takeWhile_append2) (use False in auto)
    then show ?thesis using False Cons.IH by (auto simp: Let_def)
  qed
qed

lemma Contains_sublist: "Contains s sub \<longleftrightarrow> sublist sub s"
proof (induction s)
  case Nil
  show ?case by (simp add: Contains_def)
next
  case (Cons c cs)
  show ?case
  proof (cases "prefix sub (c # cs)")
    case True
    then show ?thesis by (simp add: Contains_def prefix_imp_sublist)
  next
    case False
    have "Contains (c # cs) sub \<longleftrightarrow> Contains cs sub"
      using False Index_ge [of cs sub] by (auto simp: Contains_def Let_def)
    also have "\<dots> \<longleftrightarrow> sublist sub cs"
      by (rule Cons.IH)
    also have "\<dots> \<longleftrightarrow> sublist sub (c # cs)"
      using False by (simp add: sublist_Cons_right)
    finally show ?thesis .
  qed
qed

lemma Contains_empty: "Contains s []"
  by (simp add: Contains_sublist)

lemma ToLower_empty: "ToLower ul [] = []"
  by (simp add: ToLower_def)

lemma Split_empty: "Split [] '' '' = [[]]"
  by (simp add: Split_def)

section \<open>Contextualizer: proofs\<close>

lemma relatedByName_filter:
  "relatedByName ul text es acc
     = acc @ filter (\<lambda>e. Contains text (ToLower ul (Name e))) es"
  by (induction es arbitrary: acc) auto

lemma anyKeyword_iff: "anyKeyword text kws \<longleftrightarrow> (\<exists>kw \<in> set kws. Contains text kw)"
  by (induction kws) auto

lemma relatedByKeyword_filter:
  "relatedByKeyword ul text es acc
     = acc @ filter (\<lambda>e. anyKeyword text (Split (ToLower ul (Name e)) '' '')) es"
  by (induction es arbitrary: acc) auto

lemma RelatedPeople_eq:
  "RelatedPeople (ContextualizeTask ul unm now task ctx)
     = filter (\<lambda>e. Contains (taskText ul task) (ToLower ul (Name e))) (People (Gazetteer ctx))"
  by (simp add: ContextualizeTask_def Let_def relatedByName_filter)

lemma RelatedProjects_eq:
  "RelatedProjects (ContextualizeTask ul unm now task ctx)
     = filter (\<lambda>e. Contains (taskText ul task) (ToLower ul (Name e))) (Projects (Gazetteer ctx))"
  by (simp add: ContextualizeTask_def Let_def relatedByName_filter)

lemma RelatedConcepts_eq:
  "RelatedConcepts (ContextualizeTask ul unm now task ctx)
     = filter (\<lambda>e. anyKeyword (taskText ul task) (Split (ToLower ul (Name e)) '' ''))
         (Concepts (Gazetteer ctx))"
  by (simp add: ContextualizeTask_def Let_def relatedByKeyword_filter)

text \<open>
  Claim C10.  An entity of the gazetteer whose name is the empty string is in the
  related list of its category, whatever the task says.
\<close>

theorem empty_name_always_related:
  "(e \<in> set (People (Gazetteer ctx)) \<and> Name e = []
      \<longrightarrow> e \<in> set (RelatedPeople (ContextualizeTask ul unm now task ctx)))
   \<and> (e \<in> set (Projects (Gazetteer ctx)) \<and> Name e = []
      \<longrightarrow> e \<in> set (RelatedProjects (ContextualizeTask ul unm now task ctx)))
   \<and> (e \<in> set (Concepts (Gazetteer ctx)) \<and> Name e = []
      \<longrightarrow> e \<in> set (RelatedConcepts (ContextualizeTask ul unm now task ctx)))"
  by (simp add: RelatedPeople_eq RelatedProjects_eq RelatedConcepts_eq ToLower_empty
      Split_empty Contains_empty)

section \<open>float64 arithmetic: proofs\<close>

lemma pow2_nonpos: "e \<le> 0 \<Longrightarrow> pow2 e = 1 / 2 ^ nat (- e)"
  by (auto simp: pow2_def)

lemma roundEven_le:
  assumes "t \<le> of_int M"
  shows "roundEven t \<le> M"
proof -
  have f: "\<lfloor>t\<rfloor> \<le> M" using assms by (simp add: floor_le_iff)
  have "\<lfloor>t\<rfloor> + 1 \<le> M" if "t - of_int \<lfloor>t\<rfloor> > 0"
  proof -
    have "of_int \<lfloor>t\<rfloor> < (of_int M :: real)" using that assms by linarith
    then show ?thesis by simp
  qed
  then show ?thesis using f by (auto simp: roundEven_def Let_def)
qed

lemma roundEven_ge:
  assumes "of_int M \<le> t"
  shows "M \<le> roundEven t"
proof -
  have "M \<le> \<lfloor>t\<rfloor>" using assms by (simp add: le_floor_iff)
  then show ?thesis by (auto simp: roundEven_def Let_def)
qed

lemma roundEven_minus: "roundEven (- t) = - roundEven t"
proof (cases "t = of_int \<lfloor>t\<rfloor>")
  case True
  then obtain n where t: "t = of_int n" ..
  have "- t = of_int (- n)" using t by simp
  then have "roundEven (- t) = - n"
    unfolding roundEven_def Let_def by (simp only: floor_of_int) simp
  moreover have "roundEven t = n"
    unfolding roundEven_def Let_def t by simp
  ultimately show ?thesis by simp
next
  case False
  then have lt: "of_int \<lfloor>t\<rfloor> < t"
    using of_int_floor_le [of t] by linarith
  have c: "\<lceil>t\<rceil> = \<lfloor>t\<rfloor> + 1"
    using False by (metis ceiling_altdef)
  have fm: "\<lfloor>- t\<rfloor> = - \<lfloor>t\<rfloor> - 1"
    using c by (simp add: floor_minus)
  have r: "- t - of_int \<lfloor>- t\<rfloor> = 1 - (t - of_int \<lfloor>t\<rfloor>)"
    by (simp add: fm)
  have ev: "even (- \<lfloor>t\<rfloor> - 1) \<longleftrightarrow> odd \<lfloor>t\<rfloor>"
    by simp
  show ?thesis
    unfolding roundEven_def Let_def r unfolding fm ev
    using lt by (auto simp: field_simps)
qed

lemma f64_exponent_le:
  assumes "\<bar>x\<bar> < 2 ^ k" and "1 \<le> k"
  shows "f64_exponent x \<le> int k - 1"
proof (cases "1 \<le> \<bar>x\<bar>")
  case True
  have "\<lfloor>\<bar>x\<bar>\<rfloor> < 2 ^ k"
    using assms(1) by (simp add: floor_less_iff)
  then have "bitlen \<lfloor>\<bar>x\<bar>\<rfloor> \<le> int k"
    by (simp add: bitlen_le_iff_power)
  then show ?thesis using True by (simp add: f64_exponent_def)
next
  case False
  have "0 \<le> bitlen (\<lceil>1 / \<bar>x\<bar>\<rceil> - 1)" by (rule bitlen_nonneg)
  then show ?thesis using False assms(2) by (simp add: f64_exponent_def)
qed

lemma f64_exponent_minus: "f64_exponent (- x) = f64_exponent x"
  by (simp add: f64_exponent_def)

lemma f64_round_minus: "f64_round (- x) = - f64_round x"
  by (simp add: f64_round_def Let_def f64_exponent_minus roundEven_minus)

text \<open>
  Rounding does not cross a number of the grid: when \<open>\<bar>x\<bar> < 2\<^sup>k\<close> the quantum of
  \<open>x\<close> is at most \<open>2\<^sup>k\<^sup>-\<^sup>5\<^sup>3\<close>, so every multiple of \<open>2\<^sup>-\<^sup>j\<close> with \<open>j + k \<le> 53\<close> is
  a multiple of the quantum.
\<close>

lemma f64_round_quantum:
  assumes "x \<noteq> 0" and "\<bar>x\<bar> < 2 ^ k" and "1 \<le> k" and "j + k \<le> 53"
  obtains p where "j \<le> p" and "f64_round x = of_int (roundEven (x * 2 ^ p)) / 2 ^ p"
proof -
  define e where "e = max (f64_exponent x) (- 1022)"
  have "e \<le> int k - 1"
    using f64_exponent_le [OF assms(2,3)] by (simp add: e_def)
  then have e: "e - 52 \<le> - int j" using assms(4) by linarith
  define p where "p = nat (52 - e)"
  have jp: "j \<le> p" using e by (simp add: p_def)
  have "pow2 (e - 52) = 1 / 2 ^ p"
    using e pow2_nonpos [of "e - 52"] by (simp add: p_def)
  then have "f64_round x = of_int (roundEven (x * 2 ^ p)) / 2 ^ p"
    using assms(1) by (simp add: f64_round_def Let_def e_def [symmetric])
  then show thesis using jp that by blast
qed

lemma f64_round_le:
  assumes "x \<le> of_int m / 2 ^ j" and "\<bar>x\<bar> < 2 ^ k" and "1 \<le> k" and "j + k \<le> 53"
  shows "f64_round x \<le> of_int m / 2 ^ j"
proof (cases "x = 0")
  case True
  then show ?thesis using assms(1) by (simp add: f64_round_def)
next
  case False
  from f64_round_quantum [OF False assms(2,3,4)] obtain p where
    jp: "j \<le> p" and r: "f64_round x = of_int (roundEven (x * 2 ^ p)) / 2 ^ p"
    by blast
  have pj: "(2::real) ^ p = 2 ^ j * 2 ^ (p - j)"
    using jp by (simp flip: power_add)
  have "x * 2 ^ p \<le> (of_int m / 2 ^ j) * 2 ^ p"
    by (rule mult_right_mono [OF assms(1)]) simp
  also have "\<dots> = of_int (m * 2 ^ (p - j))"
    by (simp add: pj)
  finally have "roundEven (x * 2 ^ p) \<le> m * 2 ^ (p - j)"
    by (rule roundEven_le)
  then have "(of_int (roundEven (x * 2 ^ p)) :: real) \<le> of_int (m * 2 ^ (p - j))"
    by (simp only: of_int_le_iff)
  then have "of_int (roundEven (x * 2 ^ p)) / 2 ^ p \<le> (of_int (m * 2 ^ (p - j)) :: real) / 2 ^ p"
    by (simp add: divide_right_mono)
  also have "\<dots> = of_int m / 2 ^ j"
    by (simp add: pj)
  finally show ?thesis using r by simp
qed

lemma f64_round_ge:
  assumes "of_int m / 2 ^ j \<le> x" and "\<bar>x\<bar> < 2 ^ k" and "1 \<le> k" and "j + k \<le> 53"
  shows "of_int m / 2 ^ j \<le> f64_round x"
proof -
  have "- x \<le> of_int (- m) / 2 ^ j" using assms(1) by simp
  moreover have "\<bar>- x\<bar> < 2 ^ k" using assms(2) by simp
  ultimately have "f64_round (- x) \<le> of_int (- m) / 2 ^ j"
    using assms(3,4) by (rule f64_round_le)
  then show ?thesis by (simp add: f64_round_minus)
qed

lemma f64_round_int:
  assumes "\<bar>n\<bar> < 2 ^ 53"
  shows "f64_round (of_int n) = of_int n"
proof -
  have b: "\<bar>of_int n :: real\<bar> < 2 ^ 53"
    using assms by (metis of_int_abs of_int_less_numeral_power_cancel_iff)
  have "f64_round (of_int n) \<le> of_int n / 2 ^ 0"
    by (rule f64_round_le [OF _ b]) simp_all
  moreover have "of_int n / 2 ^ 0 \<le> f64_round (of_int n)"
    by (rule f64_round_ge [OF _ b]) simp_all
  ultimately show ?thesis by simp
qed

lemma int_of_f64_minus: "int_of_f64 (- y) = - int_of_f64 y"
  by (auto simp: int_of_f64_def floor_minus ceiling_minus)

lemma int_of_f64_between:
  assumes "of_int n \<le> y" and "y < of_int n + 1" and "0 \<le> n"
  shows "int_of_f64 y = n"
proof -
  have "0 \<le> y" using assms(1,3) by (meson of_int_0_le_iff order_trans)
  moreover have "\<lfloor>y\<rfloor> = n" using assms(1,2) by (simp add: floor_eq_iff)
  ultimately show ?thesis by (simp add: int_of_f64_def)
qed

section \<open>Age in days: proofs\<close>

lemma sdiv_minus: "(- d) sdiv k = - (d sdiv k)" for d k :: int
  by (simp add: signed_divide_int_def)

lemma smod_minus: "(- d) smod k = - (d smod k)" for d k :: int
  by (simp add: signed_modulo_int_def)

lemma sdiv_nonneg: "0 \<le> d \<Longrightarrow> 0 < k \<Longrightarrow> d sdiv k = d div k" for d k :: int
  by (cases "d = 0") (simp_all add: signed_divide_int_def)

lemma smod_nonneg: "0 \<le> d \<Longrightarrow> 0 < k \<Longrightarrow> d smod k = d mod k" for d k :: int
  by (cases "d = 0") (simp_all add: signed_modulo_int_def)

lemma Hours_minus: "Hours (- d) = - Hours d"
proof -
  define a where "a = f64_round (of_int (d sdiv Hour))"
  define q where "q = f64_round (f64_round (of_int (d smod Hour)) / 3600000000000)"
  have "f64_round (of_int (- (d sdiv Hour))) = - a"
    using f64_round_minus [of "of_int (d sdiv Hour)"] by (simp add: a_def)
  moreover have "f64_round (f64_round (of_int (- (d smod Hour))) / 3600000000000) = - q"
    using f64_round_minus [of "of_int (d smod Hour)"]
      f64_round_minus [of "f64_round (of_int (d smod Hour)) / 3600000000000"]
    by (simp add: q_def)
  moreover have "f64_round (- a + - q) = - f64_round (a + q)"
    using f64_round_minus [of "a + q"] by simp
  ultimately show ?thesis
    by (simp add: Hours_def Let_def sdiv_minus smod_minus f64_add_def f64_div_def
        f64_of_int_def a_def q_def)
qed

lemma f64_div_minus: "f64_div (- z) c = - f64_div z c"
  using f64_round_minus [of "z / c"] by (simp add: f64_div_def)

text \<open>The hour count of a duration that is not negative, by its whole hours \<open>a\<close>
  and the nanoseconds \<open>b\<close> beyond them.\<close>

lemma Hours_nonneg:
  assumes "0 \<le> d" and "d \<le> 2 ^ 63"
  defines "a \<equiv> d div Hour" and "b \<equiv> d mod Hour"
  shows "Hours d = f64_round (of_int a + f64_round (of_int b / 3600000000000))"
    and "0 \<le> a" and "a \<le> 2562047" and "0 \<le> b" and "b < Hour"
proof -
  show a0: "0 \<le> a" using assms(1) by (simp add: a_def Hour_def pos_imp_zdiv_nonneg_iff)
  have "d div Hour \<le> 2 ^ 63 div Hour"
    using assms(2) by (intro zdiv_mono1) (simp_all add: Hour_def)
  then show a1: "a \<le> 2562047" by (simp add: a_def Hour_def)
  show b0: "0 \<le> b" and b1: "b < Hour" by (simp_all add: b_def Hour_def)
  have "\<bar>a\<bar> < 2 ^ 53" using a0 a1 by simp
  then have fa: "f64_round (of_int a) = of_int a" by (rule f64_round_int)
  have "\<bar>b\<bar> < 2 ^ 53" using b0 b1 by (simp add: Hour_def)
  then have fb: "f64_round (of_int b) = of_int b" by (rule f64_round_int)
  have "d sdiv Hour = a" and "d smod Hour = b"
    using assms(1) by (simp_all add: a_def b_def sdiv_nonneg smod_nonneg Hour_def)
  then show "Hours d = f64_round (of_int a + f64_round (of_int b / 3600000000000))"
    by (simp add: Hours_def Let_def f64_add_def f64_div_def f64_of_int_def fa fb)
qed

lemma age_nonneg_bounds:
  assumes d0: "0 \<le> d" and d1: "d \<le> 2 ^ 63"
  shows "of_int (d div Day) \<le> f64_div (Hours d) 24"
    and "d mod Day + 3353 \<le> Day \<Longrightarrow> f64_div (Hours d) 24 < of_int (d div Day) + 1"
proof -
  define a where "a = d div Hour"
  define b where "b = d mod Hour"
  define n where "n = d div Day"
  define q where "q = f64_round (of_int b / 3600000000000)"
  define z where "z = Hours d"
  define y where "y = f64_div z 24"
  note H = Hours_nonneg [OF d0 d1, folded a_def b_def]
  have a0: "0 \<le> a" and a1: "a \<le> 2562047" and b0: "0 \<le> b" and b1: "b < Hour"
    using H by simp_all
  have z: "z = f64_round (of_int a + q)"
    using H(1) by (simp add: z_def q_def)
  have Day: "Day = Hour * 24" by (simp add: Day_def Hour_def)
  have n: "n = a div 24"
    using zdiv_zmult2_eq [of 24 d Hour] by (simp add: n_def a_def Day)
  have n0: "0 \<le> n" using a0 by (simp add: n)
  have n1: "n \<le> 106751" using a1 by (simp add: n)
  have a_lo: "24 * n \<le> a" and a_hi: "a \<le> 24 * n + 23"
    using n by simp_all
  have r: "d mod Day = Hour * (a mod 24) + b"
    using zmod_zmult2_eq [of 24 d Hour] by (simp add: Day a_def b_def)
  \<comment> \<open>the fraction of the hour\<close>
  have x: "0 \<le> (of_int b :: real) / 3600000000000" "(of_int b :: real) / 3600000000000 \<le> 1"
    using b0 b1 by (simp_all add: Hour_def)
  then have xb: "\<bar>(of_int b :: real) / 3600000000000\<bar> < 2 ^ 1"
    by (simp add: abs_of_nonneg)
  have "of_int 0 / 2 ^ 0 \<le> q"
    unfolding q_def by (rule f64_round_ge [OF _ xb]) (use x in simp_all)
  then have q0: "0 \<le> q" by simp
  have "q \<le> of_int 1 / 2 ^ 0"
    unfolding q_def by (rule f64_round_le [OF _ xb]) (use x in simp_all)
  then have q1: "q \<le> 1" by simp
  have q2: "q \<le> 1 - 1 / 2 ^ 30" if "b + 3353 \<le> Hour"
  proof -
    have "(of_int b :: real) \<le> 3600000000000 - 3353"
      using that by (simp add: Hour_def)
    then have "(of_int b :: real) / 3600000000000 \<le> of_int (2 ^ 30 - 1) / 2 ^ 30"
      by (simp add: field_simps)
    then have "q \<le> of_int (2 ^ 30 - 1) / 2 ^ 30"
      unfolding q_def by (rule f64_round_le [OF _ xb]) simp_all
    then show ?thesis by (simp add: field_simps)
  qed
  \<comment> \<open>the hour count\<close>
  have s0: "of_int (24 * n) \<le> of_int a + q"
    using a_lo q0 by (metis add_increasing2 of_int_le_iff)
  have s1: "of_int a + q \<le> of_int (a + 1)"
    using q1 by simp
  have ar1: "(of_int a :: real) \<le> 2562047" using a1 by simp
  have ar0: "(0 :: real) \<le> of_int a" using a0 by simp
  have sb: "\<bar>of_int a + q\<bar> < 2 ^ 23" using ar0 ar1 q0 q1 by simp
  have "of_int (24 * n) / 2 ^ 0 \<le> z"
    unfolding z by (rule f64_round_ge [OF _ sb]) (use s0 in simp_all)
  then have z0: "of_int (24 * n) \<le> z" by simp
  have "z \<le> of_int (a + 1) / 2 ^ 0"
    unfolding z by (rule f64_round_le [OF _ sb]) (use s1 in simp_all)
  then have z1: "z \<le> of_int a + 1" by simp
  have z2: "z \<le> of_int a + 1 - 1 / 2 ^ 30" if "b + 3353 \<le> Hour"
  proof -
    have "of_int a + q \<le> of_int ((a + 1) * 2 ^ 30 - 1) / 2 ^ 30"
      using q2 [OF that] by (simp add: field_simps)
    then have "z \<le> of_int ((a + 1) * 2 ^ 30 - 1) / 2 ^ 30"
      unfolding z by (rule f64_round_le [OF _ sb]) simp_all
    then show ?thesis by (simp add: field_simps)
  qed
  \<comment> \<open>the day count\<close>
  have "(0 :: real) \<le> of_int (24 * n)" using n0 by simp
  then have zn: "0 \<le> z" using z0 by linarith
  have "z \<le> 2562048" using z1 ar1 by linarith
  then have wb: "\<bar>z / 24\<bar> < 2 ^ 18" using zn by simp
  have w0: "of_int n / 2 ^ 0 \<le> z / 24" using z0 by simp
  have "of_int n / 2 ^ 0 \<le> y"
    unfolding y_def f64_div_def by (rule f64_round_ge [OF w0 wb]) simp_all
  then have y0: "of_int n \<le> y" by simp
  show "of_int (d div Day) \<le> f64_div (Hours d) 24"
    using y0 by (simp add: y_def z_def n_def)
  assume margin: "d mod Day + 3353 \<le> Day"
  have y1: "y < of_int n + 1"
  proof (cases "a \<le> 24 * n + 22")
    case True
    then have "(of_int a :: real) \<le> 24 * of_int n + 22"
      by (metis of_int_le_iff of_int_add of_int_mult of_int_numeral)
    then have "z / 24 \<le> of_int (32 * n + 31) / 2 ^ 5"
      using z1 by simp
    then have "y \<le> of_int (32 * n + 31) / 2 ^ 5"
      unfolding y_def f64_div_def by (rule f64_round_le [OF _ wb]) simp_all
    then show ?thesis by simp
  next
    case False
    then have a: "a = 24 * n + 23" using a_hi by simp
    then have "a mod 24 = 23" by simp
    then have "b + 3353 \<le> Hour"
      using margin r by (simp add: Day)
    then have "z \<le> of_int a + 1 - 1 / 2 ^ 30" by (rule z2)
    then have "z \<le> 24 * (of_int n + 1) - 1 / 2 ^ 30" by (simp add: a)
    then have "z / 24 \<le> of_int ((n + 1) * 2 ^ 35 - 1) / 2 ^ 35"
      by (simp add: field_simps)
    then have "y \<le> of_int ((n + 1) * 2 ^ 35 - 1) / 2 ^ 35"
      unfolding y_def f64_div_def by (rule f64_round_le [OF _ wb]) simp_all
    then show ?thesis by (simp add: field_simps)
  qed
  then show "f64_div (Hours d) 24 < of_int (d div Day) + 1"
    by (simp add: y_def z_def n_def)
qed

lemma age_nonneg:
  assumes "0 \<le> d" and "d \<le> 2 ^ 63" and "d mod Day + 3353 \<le> Day"
  shows "int_of_f64 (f64_div (Hours d) 24) = d div Day"
proof -
  have "0 \<le> d div Day"
    using assms(1) by (simp add: Day_def pos_imp_zdiv_nonneg_iff)
  then show ?thesis
    using int_of_f64_between [OF age_nonneg_bounds [OF assms(1,2)] _] assms(3) by blast
qed

text \<open>Without the margin the age is still at least the truncated quotient in
  magnitude: rounding can only move the hour count up to the next whole day.\<close>

lemma age_nonneg_lower:
  assumes "0 \<le> d" and "d \<le> 2 ^ 63"
  shows "d div Day \<le> int_of_f64 (f64_div (Hours d) 24)"
proof -
  have n: "0 \<le> d div Day"
    using assms(1) by (simp add: Day_def pos_imp_zdiv_nonneg_iff)
  have y: "of_int (d div Day) \<le> f64_div (Hours d) 24"
    by (rule age_nonneg_bounds(1) [OF assms])
  have "(0 :: real) \<le> of_int (d div Day)" using n by simp
  then have "0 \<le> f64_div (Hours d) 24" using y by linarith
  then show ?thesis using y by (simp add: int_of_f64_def le_floor_iff)
qed

lemma age_negative:
  assumes "- (2 ^ 63) \<le> d" and "d \<le> - Day"
  shows "int_of_f64 (f64_div (Hours d) 24) \<le> - 1"
proof -
  have "0 \<le> - d" and "- d \<le> 2 ^ 63"
    using assms by (simp_all add: Day_def)
  then have "(- d) div Day \<le> int_of_f64 (f64_div (Hours (- d)) 24)"
    by (rule age_nonneg_lower)
  moreover have "Day div Day \<le> (- d) div Day"
    using assms(2) by (intro zdiv_mono1) (simp_all add: Day_def)
  moreover have "int_of_f64 (f64_div (Hours (- d)) 24) = - int_of_f64 (f64_div (Hours d) 24)"
    by (simp only: Hours_minus f64_div_minus int_of_f64_minus)
  ultimately show ?thesis by (simp add: Day_def)
qed

text \<open>
  For every duration of the \<open>int64\<close> range that does not end in the last 3353
  nanoseconds before a whole number of days, the age is the quotient of the duration
  by one day, truncated toward zero.
\<close>

lemma age_truncated:
  assumes "- (2 ^ 63) \<le> d" and "d \<le> 2 ^ 63" and "\<bar>d\<bar> mod Day + 3353 \<le> Day"
  shows "int_of_f64 (f64_div (Hours d) 24) = d sdiv Day"
proof (cases "0 \<le> d")
  case True
  then show ?thesis
    using age_nonneg [of d] assms by (simp add: sdiv_nonneg Day_def)
next
  case False
  then have "0 \<le> - d" and "- d \<le> 2 ^ 63" and "(- d) mod Day + 3353 \<le> Day"
    using assms by simp_all
  then have "int_of_f64 (f64_div (Hours (- d)) 24) = (- d) div Day"
    by (rule age_nonneg)
  moreover have "(- d) sdiv Day = (- d) div Day"
    by (rule sdiv_nonneg) (use False in \<open>simp_all add: Day_def\<close>)
  moreover have "int_of_f64 (f64_div (Hours (- d)) 24) = - int_of_f64 (f64_div (Hours d) 24)"
    by (simp only: Hours_minus f64_div_minus int_of_f64_minus)
  moreover have "(- d) sdiv Day = - (d sdiv Day)"
    by (rule sdiv_minus)
  ultimately show ?thesis by linarith
qed

lemma Sub_range: "- (2 ^ 63) \<le> Sub t u \<and> Sub t u \<le> 2 ^ 63"
  by (simp add: Sub_def Let_def maxDuration_def minDuration_def)

lemma AgeDays_eq:
  "AgeDays (ContextualizeTask ul unm now task ctx)
     = int_of_f64 (f64_div (Hours (Sub now (AddedAt task))) 24)"
  by (simp add: ContextualizeTask_def Let_def)

text \<open>
  Claim C4, as the code has it.  The duration is what \<open>Time.Sub\<close> returns, the
  difference of now and the creation time kept within the \<open>int64\<close> range.  The age
  is the hour count of the duration, a \<open>float64\<close>, divided by 24 and cut off toward
  zero.  For every task and every value of now: when the duration does not end in the
  last 3353 nanoseconds before a whole number of days, the age is the quotient of the
  duration by one day truncated toward zero; when the creation lies a day or more in the
  future, the age is negative; when it lies less than a day in the future, by that
  margin, the age is zero.
\<close>

theorem AgeDays_truncated:
  "(\<bar>Sub now (AddedAt task)\<bar> mod Day + 3353 \<le> Day
      \<longrightarrow> AgeDays (ContextualizeTask ul unm now task ctx) = Sub now (AddedAt task) sdiv Day)
   \<and> (Sub now (AddedAt task) \<le> - Day
      \<longrightarrow> AgeDays (ContextualizeTask ul unm now task ctx) < 0)
   \<and> (- Day + 3353 \<le> Sub now (AddedAt task) \<and> Sub now (AddedAt task) \<le> 0
      \<longrightarrow> AgeDays (ContextualizeTask ul unm now task ctx) = 0)"
proof (intro conjI impI)
  let ?d = "Sub now (AddedAt task)"
  note r = Sub_range [of now "AddedAt task"]
  show t: "AgeDays (ContextualizeTask ul unm now task ctx) = ?d sdiv Day"
    if "\<bar>?d\<bar> mod Day + 3353 \<le> Day"
    using age_truncated [OF _ _ that] r by (simp add: AgeDays_eq)
  show "AgeDays (ContextualizeTask ul unm now task ctx) < 0" if "?d \<le> - Day"
    using age_negative [OF _ that] r by (simp add: AgeDays_eq)
  show "AgeDays (ContextualizeTask ul unm now task ctx) = 0"
    if "- Day + 3353 \<le> ?d \<and> ?d \<le> 0"
  proof -
    have a: "\<bar>?d\<bar> = - ?d" and b: "- ?d < Day" and c: "0 \<le> - ?d"
      using that by (simp_all add: Day_def)
    have "\<bar>?d\<bar> mod Day = - ?d"
      using b c by (simp add: a)
    then have "\<bar>?d\<bar> mod Day + 3353 \<le> Day" using that by simp
    then have "AgeDays (ContextualizeTask ul unm now task ctx) = ?d sdiv Day" by (rule t)
    moreover have "(- ?d) div Day = 0" using b c by simp
    then have "?d sdiv Day = 0"
      using sdiv_minus [of "- ?d" Day] sdiv_nonneg [OF c, of Day] by (simp add: Day_def)
    ultimately show ?thesis by simp
  qed
qed

text \<open>A creation time 36 hours after now: the duration is \<open>-36h\<close> and the age is
  \<open>-1\<close>.  A creation time 12 hours after now: the age is \<open>0\<close>.\<close>

theorem AgeDays_truncated_witness:
  "AgeDays (ContextualizeTask (\<lambda>s. s) Unmarshal_float64 0
        (sampleTask ''1'' ''Plan'' None 129600000000000) (sampleContext [] [] [])) = - 1
   \<and> AgeDays (ContextualizeTask (\<lambda>s. s) Unmarshal_float64 0
        (sampleTask ''1'' ''Plan'' None 129600000000000) (sampleContext [] [] [])) < 0
   \<and> AgeDays (ContextualizeTask (\<lambda>s. s) Unmarshal_float64 0
        (sampleTask ''2'' ''Plan'' None 43200000000000) (sampleContext [] [] [])) = 0"
proof -
  have d: "Sub 0 (AddedAt (sampleTask ''1'' ''Plan'' None 129600000000000)) = - 129600000000000"
    by (simp add: Sub_def sampleTask_def maxDuration_def minDuration_def)
  have e: "Sub 0 (AddedAt (sampleTask ''2'' ''Plan'' None 43200000000000)) = - 43200000000000"
    by (simp add: Sub_def sampleTask_def maxDuration_def minDuration_def)
  have m: "\<bar>- 129600000000000 :: int\<bar> mod Day + 3353 \<le> Day"
    and l: "(- 129600000000000 :: int) \<le> - Day"
    and h: "- Day + 3353 \<le> (- 43200000000000 :: int) \<and> (- 43200000000000 :: int) \<le> 0"
    by (simp_all add: Day_def)
  have q: "(- 129600000000000 :: int) sdiv Day = - 1"
    by (simp add: Day_def signed_divide_int_def)
  show ?thesis
    using AgeDays_truncated [of 0 "sampleTask ''1'' ''Plan'' None 129600000000000" "\<lambda>s. s"
        Unmarshal_float64 "sampleContext [] [] []"]
      AgeDays_truncated [of 0 "sampleTask ''2'' ''Plan'' None 43200000000000" "\<lambda>s. s"
        Unmarshal_float64 "sampleContext [] [] []"] m l h
    unfolding d e q by blast
qed

text \<open>
  The claim as stated fails: for a creation time 36 hours after now the floor of the
  duration divided by one day is \<open>-2\<close>, and the age is \<open>-1\<close>; for a creation time
  12 hours after now the age is \<open>0\<close>, not negative.
\<close>

theorem AgeDays_future_not_floor:
  "AgeDays (ContextualizeTask (\<lambda>s. s) Unmarshal_float64 0
      (sampleTask ''1'' ''Plan'' None 129600000000000) (sampleContext [] [] [])) = - 1
   \<and> Sub 0 (AddedAt (sampleTask ''1'' ''Plan'' None 129600000000000)) div Day = - 2
   \<and> AgeDays (ContextualizeTask (\<lambda>s. s) Unmarshal_float64 0
      (sampleTask ''2'' ''Plan'' None 43200000000000) (sampleContext [] [] [])) = 0
   \<and> Sub 0 (AddedAt (sampleTask ''2'' ''Plan'' None 43200000000000)) div Day = - 1"
proof -
  have "int_of_f64 (f64_div (Hours (Sub 0 (AddedAt (sampleTask ''1'' ''Plan'' None 129600000000000)))) 24)
      = - 1"
    by code_simp
  moreover have "Sub 0 (AddedAt (sampleTask ''1'' ''Plan'' None 129600000000000)) div Day = - 2"
    by (simp add: Sub_def sampleTask_def maxDuration_def minDuration_def Day_def)
  moreover have
    "int_of_f64 (f64_div (Hours (Sub 0 (AddedAt (sampleTask ''2'' ''Plan'' None 43200000000000)))) 24)
      = 0"
    by code_simp
  moreover have "Sub 0 (AddedAt (sampleTask ''2'' ''Plan'' None 43200000000000)) div Day = - 1"
    by (simp add: Sub_def sampleTask_def maxDuration_def minDuration_def Day_def)
  ultimately show ?thesis by (simp add: AgeDays_eq)
qed

text \<open>The margin before a whole day is needed: one nanosecond short of 1000 days the
  hour count rounds to 24000, and the age is 1000.\<close>

lemma AgeDays_near_whole_day:
  "AgeDays (ContextualizeTask (\<lambda>s. s) Unmarshal_float64 86399999999999999
      (sampleTask ''1'' ''Plan'' None 0) (sampleContext [] [] [])) = 1000
   \<and> (86399999999999999 :: int) sdiv Day = 999"
proof -
  have "int_of_f64 (f64_div (Hours (Sub 86399999999999999 (AddedAt (sampleTask ''1'' ''Plan'' None 0)))) 24)
      = 1000"
    by code_simp
  moreover have "(86399999999999999 :: int) sdiv Day = 999"
    by (simp add: Day_def signed_divide_int_def)
  ultimately show ?thesis by (simp add: AgeDays_eq)
qed

text \<open>A gazetteer whose person, project and concept have the empty name.\<close>

theorem empty_name_always_related_witness:
  "sampleEntity [] [] \<in> set (RelatedPeople
      (ContextualizeTask (\<lambda>s. s) Unmarshal_float64 0 (sampleTask ''1'' ''Finish journaling entry'' None 0)
         (sampleContext [sampleEntity [] []] [sampleEntity [] []] [sampleEntity [] []])))
   \<and> sampleEntity [] [] \<in> set (RelatedProjects
      (ContextualizeTask (\<lambda>s. s) Unmarshal_float64 0 (sampleTask ''1'' ''Finish journaling entry'' None 0)
         (sampleContext [sampleEntity [] []] [sampleEntity [] []] [sampleEntity [] []])))
   \<and> sampleEntity [] [] \<in> set (RelatedConcepts
      (ContextualizeTask (\<lambda>s. s) Unmarshal_float64 0 (sampleTask ''1'' ''Finish journaling entry'' None 0)
         (sampleContext [sampleEntity [] []] [sampleEntity [] []] [sampleEntity [] []])))"
proof -
  let ?c = "sampleContext [sampleEntity [] []] [sampleEntity [] []] [sampleEntity [] []]"
  have "sampleEntity [] [] \<in> set (People (Gazetteer ?c))"
    and "sampleEntity [] [] \<in> set (Projects (Gazetteer ?c))"
    and "sampleEntity [] [] \<in> set (Concepts (Gazetteer ?c))"
    and "Name (sampleEntity [] []) = []"
    by (simp_all add: sampleContext_def sampleEntity_def)
  then show ?thesis
    using empty_name_always_related [of "sampleEntity [] []" ?c "\<lambda>s. s" Unmarshal_float64 0
        "sampleTask ''1'' ''Finish journaling entry'' None 0"]
    by blast
qed

section \<open>Matching: the code against the specification's wording\<close>

lemma isASCII_ascii: "isASCII s \<longleftrightarrow> ascii s"
  by (induction s) (auto simp: ascii_def)

lemma ToLower_ascii: "ascii s \<Longrightarrow> ToLower ul s = map lowerByte s"
  by (simp add: ToLower_def isASCII_ascii)

lemma ascii_append: "ascii (a @ b) \<longleftrightarrow> ascii a \<and> ascii b"
  by (simp add: ascii_def)

text \<open>Two bytes have the same lowered byte exactly when they are the same letter.\<close>

lemma lowerByte_eq_iff: "lowerByte x = lowerByte y \<longleftrightarrow> same_letter x y"
proof -
  have x: "(of_char x :: nat) < 256" and y: "(of_char y :: nat) < 256"
    by simp_all
  have e: "x = y \<longleftrightarrow> (of_char x :: nat) = of_char y"
    by simp
  have c: "char_of n = c \<longleftrightarrow> n = of_char c" if "n < 256" for n :: nat and c
    using that by (metis char_of_nat mod_less of_char_of char_of_char)
  have c': "c = char_of n \<longleftrightarrow> n = of_char c" if "n < 256" for n :: nat and c
    using c [OF that] by metis
  have cc: "char_of n = (char_of m :: char) \<longleftrightarrow> n = m" if "n < 256" "m < 256" for n m :: nat
    using that by (metis mod_less of_char_of)
  show ?thesis
    unfolding lowerByte_def same_letter_def less_eq_char_def e
    using x y by (auto simp: c c' cc)
qed

lemma lowerByte_space: "lowerByte (CHR '' '') = CHR '' ''"
  by (simp add: lowerByte_def less_eq_char_def)

lemma lowerByte_is_space: "lowerByte c = CHR '' '' \<longleftrightarrow> c = CHR '' ''"
proof -
  have "lowerByte c = lowerByte (CHR '' '') \<longleftrightarrow> c = CHR '' ''"
    unfolding lowerByte_eq_iff by (auto simp: same_letter_def)
  then show ?thesis
    by (simp add: lowerByte_space)
qed

lemma same_letter_map: "list_all2 same_letter xs ys \<longleftrightarrow> map lowerByte xs = map lowerByte ys"
proof (induction xs arbitrary: ys)
  case Nil
  show ?case by auto
next
  case (Cons x xs)
  show ?case
    by (cases ys) (simp_all add: Cons.IH lowerByte_eq_iff)
qed

lemma sublist_lower:
  "sublist (map lowerByte a) (map lowerByte b) \<longleftrightarrow> occurs_ignoring_case a b"
proof
  assume "sublist (map lowerByte a) (map lowerByte b)"
  then obtain ps ss where "map lowerByte b = ps @ map lowerByte a @ ss"
    by (auto simp: sublist_def)
  then obtain us rest where b: "b = us @ rest" and r: "map lowerByte a @ ss = map lowerByte rest"
    by (auto simp: map_eq_append_conv)
  from r obtain mid vs where "rest = mid @ vs" and "map lowerByte mid = map lowerByte a"
    by (auto simp: append_eq_map_conv)
  then show "occurs_ignoring_case a b"
    unfolding occurs_ignoring_case_def same_letter_map using b by blast
next
  assume "occurs_ignoring_case a b"
  then obtain us mid vs where b: "b = us @ mid @ vs" and m: "map lowerByte mid = map lowerByte a"
    unfolding occurs_ignoring_case_def same_letter_map by blast
  have "map lowerByte b = map lowerByte us @ map lowerByte a @ map lowerByte vs"
    by (simp add: b m)
  then show "sublist (map lowerByte a) (map lowerByte b)"
    unfolding sublist_def by blast
qed

text \<open>Splitting at spaces gives the keywords of the name, and nothing else does.\<close>

lemma genSplit_space_Cons:
  "genSplit '' '' acc (c # cs)
     = (if c = CHR '' '' then acc # genSplit '' '' [] cs else genSplit '' '' (acc @ [c]) cs)"
  by auto

lemma join_spaces_Cons: "ws \<noteq> [] \<Longrightarrow> join_spaces (w # ws) = w @ '' '' @ join_spaces ws"
  by (cases ws) simp_all

lemma genSplit_keywords:
  "CHR '' '' \<notin> set acc \<Longrightarrow> keywords_of (acc @ s) (genSplit '' '' acc s)"
proof (induction s arbitrary: acc)
  case Nil
  then show ?case by (simp add: keywords_of_def)
next
  case (Cons c cs)
  show ?case
  proof (cases "c = CHR '' ''")
    case True
    have "keywords_of cs (genSplit '' '' [] cs)"
      using Cons.IH [of "[]"] by simp
    then show ?thesis
      using True Cons.prems
      by (simp only: genSplit_space_Cons if_True) (simp add: keywords_of_def join_spaces_Cons)
  next
    case False
    then show ?thesis
      using Cons.IH [of "acc @ [c]"] Cons.prems
      by (simp only: genSplit_space_Cons if_False) simp
  qed
qed

lemma genSplit_word: "CHR '' '' \<notin> set w \<Longrightarrow> genSplit '' '' acc w = [acc @ w]"
proof (induction w arbitrary: acc)
  case Nil
  show ?case by simp
next
  case (Cons c cs)
  then show ?case
    by (simp only: genSplit_space_Cons) auto
qed

lemma genSplit_word_space:
  "CHR '' '' \<notin> set w
     \<Longrightarrow> genSplit '' '' acc (w @ CHR '' '' # rest) = (acc @ w) # genSplit '' '' [] rest"
proof (induction w arbitrary: acc)
  case Nil
  show ?case by (simp only: append_Nil genSplit_space_Cons) simp
next
  case (Cons c cs)
  then show ?case
    by (simp only: append_Cons genSplit_space_Cons) auto
qed

lemma keywords_of_unique: "keywords_of name ws \<Longrightarrow> genSplit '' '' [] name = ws"
proof (induction ws arbitrary: name rule: join_spaces.induct)
  case 1
  then show ?case by (simp add: keywords_of_def)
next
  case (2 w)
  then show ?case
    using genSplit_word [of w "[]"] by (auto simp: keywords_of_def)
next
  case (3 w v ws)
  have "keywords_of (join_spaces (v # ws)) (v # ws)"
    using "3.prems" by (simp add: keywords_of_def)
  then have "genSplit '' '' [] (join_spaces (v # ws)) = v # ws"
    by (rule "3.IH")
  moreover have "name = w @ CHR '' '' # join_spaces (v # ws)" and "CHR '' '' \<notin> set w"
    using "3.prems" by (simp_all add: keywords_of_def)
  ultimately show ?case
    using genSplit_word_space [of w "[]" "join_spaces (v # ws)"] by simp
qed

lemma Split_keywords: "keywords_of name ws \<longleftrightarrow> Split name '' '' = ws"
  using genSplit_keywords [of "[]" name] keywords_of_unique [of name ws]
  by (auto simp: Split_def)

lemma join_spaces_lower:
  "join_spaces (map (map lowerByte) ws) = map lowerByte (join_spaces ws)"
  by (induction ws rule: join_spaces.induct) (simp_all add: lowerByte_space)

lemma keywords_of_lower:
  "keywords_of name ws \<Longrightarrow> keywords_of (map lowerByte name) (map (map lowerByte) ws)"
proof -
  assume k: "keywords_of name ws"
  have "CHR '' '' \<notin> set (map lowerByte w)" if "w \<in> set ws" for w
  proof
    assume "CHR '' '' \<in> set (map lowerByte w)"
    then obtain c where "c \<in> set w" and "lowerByte c = CHR '' ''"
      by auto
    then have "CHR '' '' \<in> set w"
      by (simp add: lowerByte_is_space)
    then show False
      using k that by (simp add: keywords_of_def list_all_iff)
  qed
  then have "list_all (\<lambda>w. CHR '' '' \<notin> set w) (map (map lowerByte) ws)"
    unfolding list_all_iff by auto
  then show ?thesis
    using k by (simp add: keywords_of_def join_spaces_lower)
qed

lemma Split_lower:
  "Split (map lowerByte name) '' '' = map (map lowerByte) (Split name '' '')"
  using keywords_of_lower [of name "Split name '' ''"] by (simp add: Split_keywords)

lemma name_match:
  assumes "ascii name" and "ascii text"
  shows "sublist (ToLower ul name) (ToLower ul text) \<longleftrightarrow> occurs_ignoring_case name text"
  using assms by (simp add: ToLower_ascii sublist_lower)

lemma keyword_match:
  assumes "ascii name" and "ascii text"
  shows "(\<exists>kw \<in> set (Split (ToLower ul name) '' ''). sublist kw (ToLower ul text))
     \<longleftrightarrow> (\<exists>ws. keywords_of name ws \<and> list_ex (\<lambda>kw. occurs_ignoring_case kw text) ws)"
proof -
  have "(\<exists>kw \<in> set (Split (ToLower ul name) '' ''). sublist kw (ToLower ul text))
     \<longleftrightarrow> (\<exists>kw \<in> set (Split name '' ''). sublist (map lowerByte kw) (map lowerByte text))"
    using assms by (simp add: ToLower_ascii Split_lower)
  also have "\<dots> \<longleftrightarrow> list_ex (\<lambda>kw. occurs_ignoring_case kw text) (Split name '' '')"
    by (simp add: sublist_lower list_ex_iff)
  also have "\<dots> \<longleftrightarrow> (\<exists>ws. keywords_of name ws \<and> list_ex (\<lambda>kw. occurs_ignoring_case kw text) ws)"
    by (simp add: Split_keywords)
  finally show ?thesis .
qed

text \<open>
  Claim C6, as the code has it.  The search text is the lowered
  \<open>Content + " " + Description\<close>, with one space between the two.  The related people
  (projects) are the people (projects) of the gazetteer whose lowered full name is a
  contiguous part of the search text; the related concepts are the concepts with at
  least one keyword of the lowered name, split at spaces, that is a contiguous part of
  the search text.  Each list keeps the gazetteer's order.  When the content, the
  description and the names are ASCII, this is: a person or a project is related when
  its whole name occurs in \<open>Content + " " + Description\<close>, letter case ignored, and a
  concept is related when one of the keywords of its name does.
\<close>

theorem ContextualizeTask_matching:
  "RelatedPeople (ContextualizeTask ul unm now task ctx)
     = filter (\<lambda>e. sublist (ToLower ul (Name e)) (ToLower ul (Content task @ '' '' @ Description task)))
         (People (Gazetteer ctx))
   \<and> RelatedProjects (ContextualizeTask ul unm now task ctx)
     = filter (\<lambda>e. sublist (ToLower ul (Name e)) (ToLower ul (Content task @ '' '' @ Description task)))
         (Projects (Gazetteer ctx))
   \<and> RelatedConcepts (ContextualizeTask ul unm now task ctx)
     = filter (\<lambda>e. \<exists>kw \<in> set (Split (ToLower ul (Name e)) '' '').
                     sublist kw (ToLower ul (Content task @ '' '' @ Description task)))
         (Concepts (Gazetteer ctx))
   \<and> (ascii (Content task) \<and> ascii (Description task)
      \<and> list_all (\<lambda>e. ascii (Name e))
          (People (Gazetteer ctx) @ Projects (Gazetteer ctx) @ Concepts (Gazetteer ctx))
      \<longrightarrow> RelatedPeople (ContextualizeTask ul unm now task ctx)
            = filter (\<lambda>e. occurs_ignoring_case (Name e) (Content task @ '' '' @ Description task))
                (People (Gazetteer ctx))
          \<and> RelatedProjects (ContextualizeTask ul unm now task ctx)
            = filter (\<lambda>e. occurs_ignoring_case (Name e) (Content task @ '' '' @ Description task))
                (Projects (Gazetteer ctx))
          \<and> RelatedConcepts (ContextualizeTask ul unm now task ctx)
            = filter (\<lambda>e. \<exists>ws. keywords_of (Name e) ws
                              \<and> list_ex (\<lambda>kw. occurs_ignoring_case kw
                                    (Content task @ '' '' @ Description task)) ws)
                (Concepts (Gazetteer ctx)))"
proof -
  let ?text = "Content task @ '' '' @ Description task"
  have people: "RelatedPeople (ContextualizeTask ul unm now task ctx)
     = filter (\<lambda>e. sublist (ToLower ul (Name e)) (ToLower ul ?text)) (People (Gazetteer ctx))"
    by (simp add: RelatedPeople_eq Contains_sublist taskText_def)
  have projects: "RelatedProjects (ContextualizeTask ul unm now task ctx)
     = filter (\<lambda>e. sublist (ToLower ul (Name e)) (ToLower ul ?text)) (Projects (Gazetteer ctx))"
    by (simp add: RelatedProjects_eq Contains_sublist taskText_def)
  have concepts: "RelatedConcepts (ContextualizeTask ul unm now task ctx)
     = filter (\<lambda>e. \<exists>kw \<in> set (Split (ToLower ul (Name e)) '' ''). sublist kw (ToLower ul ?text))
         (Concepts (Gazetteer ctx))"
    by (simp add: RelatedConcepts_eq anyKeyword_iff Contains_sublist taskText_def)
  have ascii_case: "filter (\<lambda>e. sublist (ToLower ul (Name e)) (ToLower ul ?text)) es
        = filter (\<lambda>e. occurs_ignoring_case (Name e) ?text) es
      \<and> filter (\<lambda>e. \<exists>kw \<in> set (Split (ToLower ul (Name e)) '' ''). sublist kw (ToLower ul ?text)) es
        = filter (\<lambda>e. \<exists>ws. keywords_of (Name e) ws
                          \<and> list_ex (\<lambda>kw. occurs_ignoring_case kw ?text) ws) es"
    if cd: "ascii (Content task) \<and> ascii (Description task)"
      and es: "list_all (\<lambda>e. ascii (Name e)) es" for es
  proof (intro conjI filter_cong refl)
    fix e
    assume "e \<in> set es"
    have t: "ascii ?text"
      using cd by (simp add: ascii_def)
    from \<open>e \<in> set es\<close> have n: "ascii (Name e)"
      using es by (simp add: list_all_iff)
    show "sublist (ToLower ul (Name e)) (ToLower ul ?text) \<longleftrightarrow> occurs_ignoring_case (Name e) ?text"
      using n t by (rule name_match)
    show "(\<exists>kw \<in> set (Split (ToLower ul (Name e)) '' ''). sublist kw (ToLower ul ?text))
      \<longleftrightarrow> (\<exists>ws. keywords_of (Name e) ws \<and> list_ex (\<lambda>kw. occurs_ignoring_case kw ?text) ws)"
      using n t by (rule keyword_match)
  qed
  show ?thesis
  proof (intro conjI impI)
    assume h: "ascii (Content task) \<and> ascii (Description task)
      \<and> list_all (\<lambda>e. ascii (Name e))
          (People (Gazetteer ctx) @ Projects (Gazetteer ctx) @ Concepts (Gazetteer ctx))"
    then have cd: "ascii (Content task) \<and> ascii (Description task)"
      and pe: "list_all (\<lambda>e. ascii (Name e)) (People (Gazetteer ctx))"
      and pr: "list_all (\<lambda>e. ascii (Name e)) (Projects (Gazetteer ctx))"
      and co: "list_all (\<lambda>e. ascii (Name e)) (Concepts (Gazetteer ctx))"
      by simp_all
    show "RelatedPeople (ContextualizeTask ul unm now task ctx)
        = filter (\<lambda>e. occurs_ignoring_case (Name e) ?text) (People (Gazetteer ctx))"
      unfolding people using ascii_case [OF cd pe] by (rule conjunct1)
    show "RelatedProjects (ContextualizeTask ul unm now task ctx)
        = filter (\<lambda>e. occurs_ignoring_case (Name e) ?text) (Projects (Gazetteer ctx))"
      unfolding projects using ascii_case [OF cd pr] by (rule conjunct1)
    show "RelatedConcepts (ContextualizeTask ul unm now task ctx)
        = filter (\<lambda>e. \<exists>ws. keywords_of (Name e) ws
                          \<and> list_ex (\<lambda>kw. occurs_ignoring_case kw ?text) ws)
            (Concepts (Gazetteer ctx))"
      unfolding concepts using ascii_case [OF cd co] by (rule conjunct2)
  qed (rule people projects concepts)+
qed

text \<open>
  A run with upper-case letters on both sides.  The person \<open>journaling ENTRY\<close> is
  related because of the space that joins the content \<open>Finish JOURNALING\<close> and the
  description \<open>entry Now\<close>; the person \<open>Morning Journaling Ritual\<close> is not, while
  the concept of the same name is, by its keyword \<open>Journaling\<close>.
\<close>

theorem ContextualizeTask_matching_witness:
  "ascii ''Finish JOURNALING'' \<and> ascii ''entry Now''
   \<and> list_all (\<lambda>e. ascii (Name e))
       ([sampleEntity ''Morning Journaling Ritual'' [], sampleEntity ''journaling ENTRY'' []] @ []
        @ [sampleEntity ''Journaling'' [], sampleEntity ''Coding'' [],
           sampleEntity ''Morning Journaling Ritual'' []])
   \<and> RelatedPeople
       (ContextualizeTask (\<lambda>s. s) Unmarshal_float64 0
          ((sampleTask ''1'' ''Finish JOURNALING'' None 0)\<lparr>Description := ''entry Now''\<rparr>)
          (sampleContext
             [sampleEntity ''Morning Journaling Ritual'' [], sampleEntity ''journaling ENTRY'' []] []
             [sampleEntity ''Journaling'' [], sampleEntity ''Coding'' [],
              sampleEntity ''Morning Journaling Ritual'' []]))
     = filter (\<lambda>e. occurs_ignoring_case (Name e) (''Finish JOURNALING'' @ '' '' @ ''entry Now''))
         [sampleEntity ''Morning Journaling Ritual'' [], sampleEntity ''journaling ENTRY'' []]
   \<and> RelatedPeople
       (ContextualizeTask (\<lambda>s. s) Unmarshal_float64 0
          ((sampleTask ''1'' ''Finish JOURNALING'' None 0)\<lparr>Description := ''entry Now''\<rparr>)
          (sampleContext
             [sampleEntity ''Morning Journaling Ritual'' [], sampleEntity ''journaling ENTRY'' []] []
             [sampleEntity ''Journaling'' [], sampleEntity ''Coding'' [],
              sampleEntity ''Morning Journaling Ritual'' []]))
     = [sampleEntity ''journaling ENTRY'' []]
   \<and> RelatedConcepts
       (ContextualizeTask (\<lambda>s. s) Unmarshal_float64 0
          ((sampleTask ''1'' ''Finish JOURNALING'' None 0)\<lparr>Description := ''entry Now''\<rparr>)
          (sampleContext
             [sampleEntity ''Morning Journaling Ritual'' [], sampleEntity ''journaling ENTRY'' []] []
             [sampleEntity ''Journaling'' [], sampleEntity ''Coding'' [],
              sampleEntity ''Morning Journaling Ritual'' []]))
     = filter (\<lambda>e. \<exists>ws. keywords_of (Name e) ws
                       \<and> list_ex (\<lambda>kw. occurs_ignoring_case kw
                             (''Finish JOURNALING'' @ '' '' @ ''entry Now'')) ws)
         [sampleEntity ''Journaling'' [], sampleEntity ''Coding'' [],
          sampleEntity ''Morning Journaling Ritual'' []]
   \<and> RelatedConcepts
       (ContextualizeTask (\<lambda>s. s) Unmarshal_float64 0
          ((sampleTask ''1'' ''Finish JOURNALING'' None 0)\<lparr>Description := ''entry Now''\<rparr>)
          (sampleContext
             [sampleEntity ''Morning Journaling Ritual'' [], sampleEntity ''journaling ENTRY'' []] []
             [sampleEntity ''Journaling'' [], sampleEntity ''Coding'' [],
              sampleEntity ''Morning Journaling Ritual'' []]))
     = [sampleEntity ''Journaling'' [], sampleEntity ''Morning Journaling Ritual'' []]"
proof -
  let ?people = "[sampleEntity ''Morning Journaling Ritual'' [], sampleEntity ''journaling ENTRY'' []]"
  let ?concepts = "[sampleEntity ''Journaling'' [], sampleEntity ''Coding'' [],
        sampleEntity ''Morning Journaling Ritual'' []]"
  let ?task = "(sampleTask ''1'' ''Finish JOURNALING'' None 0)\<lparr>Description := ''entry Now''\<rparr>"
  let ?ctx = "sampleContext ?people [] ?concepts"
  have a: "ascii ''Finish JOURNALING''" "ascii ''entry Now''"
    "list_all (\<lambda>e. ascii (Name e)) (?people @ [] @ ?concepts)"
    by code_simp+
  have f: "Content ?task = ''Finish JOURNALING''" "Description ?task = ''entry Now''"
    "People (Gazetteer ?ctx) = ?people" "Projects (Gazetteer ?ctx) = []"
    "Concepts (Gazetteer ?ctx) = ?concepts"
    by (simp_all add: sampleTask_def sampleContext_def)
  have p: "RelatedPeople (ContextualizeTask (\<lambda>s. s) Unmarshal_float64 0 ?task ?ctx)
      = [sampleEntity ''journaling ENTRY'' []]"
    by code_simp
  have c: "RelatedConcepts (ContextualizeTask (\<lambda>s. s) Unmarshal_float64 0 ?task ?ctx)
      = [sampleEntity ''Journaling'' [], sampleEntity ''Morning Journaling Ritual'' []]"
    by code_simp
  show ?thesis
    using ContextualizeTask_matching [of "\<lambda>s. s" Unmarshal_float64 0 ?task ?ctx] a p c
    unfolding f by blast
qed

text \<open>
  Against the claim's plain concatenation: with the content \<open>jour\<close> and the
  description \<open>naling\<close> the name \<open>journaling\<close> is a part of content followed by
  description, yet neither the person nor the concept of that name is related; the
  person \<open>jour naling\<close>, which is no part of it, is related.
\<close>

theorem ContextualizeTask_joins_with_space:
  "sublist ''journaling'' (''jour'' @ ''naling'')
   \<and> RelatedPeople
       (ContextualizeTask (\<lambda>s. s) Unmarshal_float64 0
          ((sampleTask ''1'' ''jour'' None 0)\<lparr>Description := ''naling''\<rparr>)
          (sampleContext [sampleEntity ''journaling'' [], sampleEntity ''jour naling'' []] []
             [sampleEntity ''journaling'' []]))
     = [sampleEntity ''jour naling'' []]
   \<and> RelatedConcepts
       (ContextualizeTask (\<lambda>s. s) Unmarshal_float64 0
          ((sampleTask ''1'' ''jour'' None 0)\<lparr>Description := ''naling''\<rparr>)
          (sampleContext [sampleEntity ''journaling'' [], sampleEntity ''jour naling'' []] []
             [sampleEntity ''journaling'' []]))
     = []
   \<and> \<not> sublist ''jour naling'' (''jour'' @ ''naling'')"
proof -
  have "''jour'' @ ''naling'' = [] @ ''journaling'' @ []"
    by simp
  then have s: "sublist ''journaling'' (''jour'' @ ''naling'')"
    unfolding sublist_def by blast
  have n: "\<not> sublist ''jour naling'' (''jour'' @ ''naling'')"
  proof
    assume "sublist ''jour naling'' (''jour'' @ ''naling'')"
    then have "length ''jour naling'' \<le> length (''jour'' @ ''naling'')"
      by (rule sublist_length_le)
    then show False by simp
  qed
  have p: "RelatedPeople
       (ContextualizeTask (\<lambda>s. s) Unmarshal_float64 0
          ((sampleTask ''1'' ''jour'' None 0)\<lparr>Description := ''naling''\<rparr>)
          (sampleContext [sampleEntity ''journaling'' [], sampleEntity ''jour naling'' []] []
             [sampleEntity ''journaling'' []]))
     = [sampleEntity ''jour naling'' []]"
    by code_simp
  have c: "RelatedConcepts
       (ContextualizeTask (\<lambda>s. s) Unmarshal_float64 0
          ((sampleTask ''1'' ''jour'' None 0)\<lparr>Description := ''naling''\<rparr>)
          (sampleContext [sampleEntity ''journaling'' [], sampleEntity ''jour naling'' []] []
             [sampleEntity ''journaling'' []]))
     = []"
    by code_simp
  show ?thesis
    using s n p c by blast
qed

text \<open>
  The engine's test and the asymmetry: the text \<open>Finish journaling entry\<close> matches the
  concepts \<open>Journaling\<close> and \<open>Morning Journaling Ritual\<close> (one keyword suffices)
  but not the person \<open>Morning Journaling Ritual\<close> (the full name is required).
\<close>

lemma ContextualizeTask_matching_example:
  "RelatedConcepts
     (ContextualizeTask (\<lambda>s. s) Unmarshal_float64 0 (sampleTask ''1'' ''Finish journaling entry'' None 0)
        (sampleContext [sampleEntity ''Morning Journaling Ritual'' []] []
           [sampleEntity ''Journaling'' [], sampleEntity ''Coding'' [],
            sampleEntity ''Morning Journaling Ritual'' []]))
     = [sampleEntity ''Journaling'' [], sampleEntity ''Morning Journaling Ritual'' []]
   \<and> RelatedPeople
     (ContextualizeTask (\<lambda>s. s) Unmarshal_float64 0 (sampleTask ''1'' ''Finish journaling entry'' None 0)
        (sampleContext [sampleEntity ''Morning Journaling Ritual'' []] []
           [sampleEntity ''Journaling'' [], sampleEntity ''Coding'' [],
            sampleEntity ''Morning Journaling Ritual'' []]))
     = []"
  by code_simp

section \<open>Historical weight: proofs\<close>

lemma maxSpanLoop_Max:
  "maxSpanLoop unm cs m = Max (insert m (GetSpanYears unm ` set cs))"
proof (induction cs arbitrary: m)
  case Nil
  show ?case by simp
next
  case (Cons c cs)
  have "maxSpanLoop unm (c # cs) m = maxSpanLoop unm cs (max m (GetSpanYears unm c))"
    by (simp add: Let_def max_def not_less)
  also have "\<dots> = Max (insert (max m (GetSpanYears unm c)) (GetSpanYears unm ` set cs))"
    by (rule Cons.IH)
  also have "\<dots> = Max (insert m (insert (GetSpanYears unm c) (GetSpanYears unm ` set cs)))"
    by (cases "set cs = {}") (simp_all add: max.assoc)
  finally show ?case by simp
qed

lemma HistoricalWeight_loop:
  "HistoricalWeight (ContextualizeTask ul unm now task ctx)
     = maxSpanLoop unm (RelatedConcepts (ContextualizeTask ul unm now task ctx)) 0"
  by (simp add: ContextualizeTask_def Let_def)

text \<open>
  Claim C5, as the code has it.  The historical weight is the largest number among
  zero and the spans of the related concepts, where \<open>GetSpanYears\<close> gives zero for
  a span that is absent or that does not decode to a number.  People and projects do
  not occur in it.
\<close>

theorem HistoricalWeight_max_with_zero:
  "HistoricalWeight (ContextualizeTask ul unm now task ctx)
     = Max (insert 0 (GetSpanYears unm ` set (RelatedConcepts (ContextualizeTask ul unm now task ctx))))
   \<and> (\<forall>e. SpanYears e = [] \<or> unm (SpanYears e) = None \<longrightarrow> GetSpanYears unm e = 0)"
  by (auto simp: HistoricalWeight_loop maxSpanLoop_Max GetSpanYears_def)

text \<open>The engine's test: of the concepts \<open>LongTerm\<close> (10 years), \<open>MidTerm\<close> (5) and
  \<open>ShortTerm\<close> (0.4) the task matches the first only, and the weight is 10; a span
  \<open>"unknown"\<close> counts as zero.\<close>

theorem HistoricalWeight_max_with_zero_witness:
  \<open>HistoricalWeight
     (ContextualizeTask (\<lambda>s. s) Unmarshal_float64 0 (sampleTask ''1'' ''A LongTerm task'' None 0)
        (sampleContext [] []
           [sampleEntity ''LongTerm'' ''10'', sampleEntity ''MidTerm'' ''5'',
            sampleEntity ''ShortTerm'' ''0.4''])) = 10
   \<and> GetSpanYears Unmarshal_float64 (sampleEntity ''Journaling'' ''"unknown"'') = 0\<close>
proof -
  let ?t = "sampleTask ''1'' ''A LongTerm task'' None 0"
  let ?c = "sampleContext [] []
           [sampleEntity ''LongTerm'' ''10'', sampleEntity ''MidTerm'' ''5'',
            sampleEntity ''ShortTerm'' ''0.4'']"
  have rel: "RelatedConcepts (ContextualizeTask (\<lambda>s. s) Unmarshal_float64 0 ?t ?c)
      = [sampleEntity ''LongTerm'' ''10'']"
    by code_simp
  have span: "GetSpanYears Unmarshal_float64 (sampleEntity ''LongTerm'' ''10'') = 10"
    by code_simp
  have unknown: \<open>Unmarshal_float64 ''"unknown"'' = None\<close>
    by code_simp
  have \<open>SpanYears (sampleEntity ''Journaling'' ''"unknown"'') = ''"unknown"''\<close>
    by (simp add: sampleEntity_def)
  then show ?thesis
    using HistoricalWeight_max_with_zero [of "\<lambda>s. s" Unmarshal_float64 0 ?t ?c] rel span unknown
    by simp
qed

text \<open>
  The claim as stated fails: for a single related concept whose span is a negative
  number the weight is zero, not that span.
\<close>

theorem HistoricalWeight_negative_span:
  "RelatedConcepts
     (ContextualizeTask (\<lambda>s. s) Unmarshal_float64 0 (sampleTask ''1'' ''Journaling'' None 0)
        (sampleContext [] [] [sampleEntity ''Journaling'' ''-3'']))
     = [sampleEntity ''Journaling'' ''-3'']
   \<and> GetSpanYears Unmarshal_float64 (sampleEntity ''Journaling'' ''-3'') = - 3
   \<and> HistoricalWeight
     (ContextualizeTask (\<lambda>s. s) Unmarshal_float64 0 (sampleTask ''1'' ''Journaling'' None 0)
        (sampleContext [] [] [sampleEntity ''Journaling'' ''-3''])) = 0"
  by code_simp

section \<open>Response parser: proofs\<close>

lemma slice_Inr: "slice s lo hi = Inr js \<Longrightarrow> js = take (nat (hi - lo)) (drop (nat lo) s)"
  by (auto simp: slice_def split: if_splits)

lemma ParseDecisionResponse_cases:
  "ParseDecisionResponse unmarshal response taskID =
     (if Index response ''{'' = - 1 \<or> LastIndex response ''}'' = - 1
      then Inr \<lparr>TaskID = taskID, Action = ''skip'', Priority = None, NewContent = None,
                Subtasks = [], Reasoning = ''Failed to parse LLM response'', InertiaScore = 0\<rparr>
      else case slice response (Index response ''{'') (LastIndex response ''}'' + 1) of
             Inl p \<Rightarrow> Inl p
           | Inr js \<Rightarrow>
               (case unmarshal (jsonPayload response) of
                  Inl err \<Rightarrow>
                    Inr \<lparr>TaskID = taskID, Action = ''skip'', Priority = None, NewContent = None,
                         Subtasks = [], Reasoning = ''JSON parse error: '' @ err,
                         InertiaScore = 0\<rparr>
                | Inr r \<Rightarrow>
                    Inr \<lparr>TaskID = taskID, Action = result.Action r,
                         Priority = result.Priority r, NewContent = result.NewContent r,
                         Subtasks = result.Subtasks r, Reasoning = result.Reasoning r,
                         InertiaScore = result.InertiaScore r\<rparr>))"
  by (auto simp: ParseDecisionResponse_def Let_def jsonPayload_def dest: slice_Inr
      split: sum.splits)

text \<open>
  Claim C1, as the code has it.  Whenever the parser returns a decision: the action is
  \<open>skip\<close> if a bracket is missing or the payload does not decode, and otherwise it is
  the action string of the decoded payload, unchanged.  So the action is one of the five
  tags if and only if a bracket is missing, the payload does not decode, or the decoded
  action string is one of the five tags.
\<close>

theorem ParseDecisionResponse_action:
  assumes "ParseDecisionResponse unmarshal response taskID = Inr d"
  shows "Decision.Action d =
           (if Index response ''{'' = - 1 \<or> LastIndex response ''}'' = - 1 then ''skip''
            else case unmarshal (jsonPayload response) of
                   Inl err \<Rightarrow> ''skip'' | Inr r \<Rightarrow> result.Action r)
         \<and> (Decision.Action d \<in> action_tags \<longleftrightarrow>
               Index response ''{'' = - 1 \<or> LastIndex response ''}'' = - 1
               \<or> (case unmarshal (jsonPayload response) of
                     Inl err \<Rightarrow> True | Inr r \<Rightarrow> result.Action r \<in> action_tags))"
proof -
  have skip: "''skip'' \<in> action_tags"
    by (simp add: action_tags_def)
  show ?thesis
    using assms skip unfolding ParseDecisionResponse_cases
    by (auto split: if_splits sum.splits)
qed

text \<open>The engine's test: prose before the object, and the action \<open>decompose\<close>.\<close>

theorem ParseDecisionResponse_action_witness:
  \<open>ParseDecisionResponse Unmarshal_result
      ''Some chatter {"action": "decompose", "subtasks": ["step 1", "step 2"], "reasoning": "too big"}''
      ''123''
    = Inr \<lparr>TaskID = ''123'', Action = ''decompose'', Priority = None, NewContent = None,
           Subtasks = [''step 1'', ''step 2''], Reasoning = ''too big'', InertiaScore = 0\<rparr>
   \<and> ''decompose'' =
       (case Unmarshal_result (jsonPayload
          ''Some chatter {"action": "decompose", "subtasks": ["step 1", "step 2"], "reasoning": "too big"}'')
        of Inl err \<Rightarrow> ''skip'' | Inr r \<Rightarrow> result.Action r)
   \<and> ''decompose'' \<in> action_tags\<close>
proof -
  let ?resp = \<open>''Some chatter {"action": "decompose", "subtasks": ["step 1", "step 2"], "reasoning": "too big"}''\<close>
  let ?d = "\<lparr>TaskID = ''123'', Action = ''decompose'', Priority = None, NewContent = None,
           Subtasks = [''step 1'', ''step 2''], Reasoning = ''too big'', InertiaScore = 0\<rparr>"
  have run: "ParseDecisionResponse Unmarshal_result ?resp ''123'' = Inr ?d"
    by code_simp
  have i: "Index ?resp ''{'' \<noteq> - 1"
    by code_simp
  have l: "LastIndex ?resp ''}'' \<noteq> - 1"
    by code_simp
  show ?thesis
    using ParseDecisionResponse_action [OF run] run i l
    by (simp add: action_tags_def)
qed

text \<open>
  The claim as stated fails: a payload that decodes and carries the action
  \<open>delete\<close> yields a decision with that action, and an empty object yields the
  empty action.
\<close>

theorem ParseDecisionResponse_unknown_action:
  \<open>ParseDecisionResponse Unmarshal_result ''{"action":"delete"}'' ''123''
     = Inr \<lparr>TaskID = ''123'', Action = ''delete'', Priority = None, NewContent = None,
            Subtasks = [], Reasoning = [], InertiaScore = 0\<rparr>
   \<and> ''delete'' \<notin> action_tags
   \<and> ParseDecisionResponse Unmarshal_result ''{}'' ''123''
     = Inr \<lparr>TaskID = ''123'', Action = [], Priority = None, NewContent = None,
            Subtasks = [], Reasoning = [], InertiaScore = 0\<rparr>
   \<and> [] \<notin> action_tags\<close>
proof -
  have \<open>ParseDecisionResponse Unmarshal_result ''{"action":"delete"}'' ''123''
     = Inr \<lparr>TaskID = ''123'', Action = ''delete'', Priority = None, NewContent = None,
            Subtasks = [], Reasoning = [], InertiaScore = 0\<rparr>\<close>
    by code_simp
  moreover have \<open>ParseDecisionResponse Unmarshal_result ''{}'' ''123''
     = Inr \<lparr>TaskID = ''123'', Action = [], Priority = None, NewContent = None,
            Subtasks = [], Reasoning = [], InertiaScore = 0\<rparr>\<close>
    by code_simp
  ultimately show ?thesis by (simp add: action_tags_def)
qed

text \<open>
  Claim C2 fails on the code.  When the last \<open>}\<close> comes before the first \<open>{\<close> with a
  byte between them, both indices are found, the slice bounds are out of range, and the
  parser panics instead of returning a \<open>skip\<close> decision; this holds for every decoder
  and every task identifier.
\<close>

theorem ParseDecisionResponse_panics:
  "ParseDecisionResponse unmarshal ''} {'' taskID = Inl (SliceBoundsOutOfRange 2 1)"
  by (simp add: ParseDecisionResponse_def slice_def)

text \<open>
  The parser returns exactly when a bracket is missing or the first \<open>{\<close> is not more
  than one byte after the last \<open>}\<close>; then it does what the claim says: a payload that
  does not decode yields \<open>skip\<close> with a reasoning that is not empty.
\<close>

lemma ParseDecisionResponse_returns_iff:
  "(\<exists>d. ParseDecisionResponse unmarshal response taskID = Inr d) \<longleftrightarrow>
     Index response ''{'' = - 1 \<or> LastIndex response ''}'' = - 1
     \<or> Index response ''{'' \<le> LastIndex response ''}'' + 1"
proof -
  let ?lo = "Index response ''{''" and ?hi = "LastIndex response ''}'' + 1"
  have b: "- 1 \<le> ?lo" "?hi \<le> int (length response)"
    using Index_ge [of response "''{''"] LastIndex_bounds [of response "CHR ''}''"] by simp_all
  have "(\<exists>js. slice response ?lo ?hi = Inr js) \<longleftrightarrow> 0 \<le> ?lo \<and> ?lo \<le> ?hi"
    using b by (auto simp: slice_def)
  then show ?thesis
    using b(1) by (auto simp: ParseDecisionResponse_def Let_def split: sum.splits)
qed

lemma ParseDecisionResponse_degrades:
  assumes "ParseDecisionResponse unmarshal response taskID = Inr d"
  shows "Decision.Action d = ''skip'' \<and> Decision.Reasoning d \<noteq> []
         \<or> (\<exists>r. unmarshal (jsonPayload response) = Inr r)"
  using assms unfolding ParseDecisionResponse_cases
  by (auto split: if_splits sum.splits)

section \<open>Decision executor: proofs\<close>

lemma commands_append: "commands (xs @ ys) = commands xs @ commands ys"
  by (induction xs rule: commands.induct) auto

lemma commands_runLogged:
  "commands (fst (runLogged run msg argv s)) = commands (fst s) @ [argv]"
  by (auto simp: runLogged_def commands_append split: prod.splits option.splits)



section \<open>Command line: proofs\<close>

lemma Parse_Nil: "Parse atoi [] fl = Inr fl"
  by (simp add: Parse.simps [of atoi "[]"] parseOne_def)

lemma parseOne_keeps_contextFile:
  assumes "\<forall>a \<in> set arguments. flagName a \<noteq> ''context''"
    and "parseOne atoi arguments fl = Next fl' rest"
  shows "contextFile fl' = contextFile fl \<and> set rest \<subseteq> set arguments"
  using assms
  by (auto simp: parseOne_def split: list.splits if_splits option.splits)

lemma Parse_keeps_contextFile:
  assumes "\<forall>a \<in> set arguments. flagName a \<noteq> ''context''"
    and "Parse atoi arguments fl = Inr fl'"
  shows "contextFile fl' = contextFile fl"
  using assms
proof (induction atoi arguments fl rule: Parse.induct)
  case (1 atoi arguments fl)
  show ?case
  proof (cases "parseOne atoi arguments fl")
    case Stop
    then show ?thesis using "1.prems"(2) by (simp add: Parse.simps)
  next
    case (Fail e)
    then show ?thesis using "1.prems"(2) by (simp add: Parse.simps)
  next
    case (Next fl1 rest)
    have k: "contextFile fl1 = contextFile fl" and sub: "set rest \<subseteq> set arguments"
      using parseOne_keeps_contextFile [OF "1.prems"(1) Next] by simp_all
    have "Parse atoi rest fl1 = Inr fl'"
      using "1.prems"(2) Next by (simp add: Parse.simps)
    moreover have "\<forall>a \<in> set rest. flagName a \<noteq> ''context''"
      using "1.prems"(1) sub by blast
    ultimately have "contextFile fl' = contextFile fl1"
      using "1.IH" [OF Next] by blast
    then show ?thesis using k by simp
  qed
qed

text \<open>
  Claim C9, as the code has it.  The context option is optional.  When no argument
  names it, the path that \<open>main\<close> loads the context from is the built-in default
  \<open>logs/inertia-context-2026-02-22.json\<close>, and the run proceeds if that file loads.
  When the arguments are \<open>--context p\<close>, the path is \<open>p\<close>.
\<close>

theorem main_context_default:
  "((\<forall>a \<in> set args. flagName a \<noteq> ''context'') \<longrightarrow>
     main_startup atoi readFile unmarshal args =
       (case Parse atoi args defaultFlags of
          Inl ErrHelp \<Rightarrow> ExitStatus 0
        | Inl (ErrFlag msg) \<Rightarrow> ExitStatus 2
        | Inr fl \<Rightarrow>
            (case LoadContext readFile unmarshal ''logs/inertia-context-2026-02-22.json'' of
               Inl err \<Rightarrow> ExitStatus 1
             | Inr ctx \<Rightarrow> Proceed fl ctx)))
   \<and> main_startup atoi readFile unmarshal [''--context'', p] =
       (case LoadContext readFile unmarshal p of
          Inl err \<Rightarrow> ExitStatus 1
        | Inr ctx \<Rightarrow> Proceed (defaultFlags\<lparr>contextFile := p\<rparr>) ctx)"
proof (intro conjI impI)
  assume a: "\<forall>a \<in> set args. flagName a \<noteq> ''context''"
  show "main_startup atoi readFile unmarshal args =
       (case Parse atoi args defaultFlags of
          Inl ErrHelp \<Rightarrow> ExitStatus 0
        | Inl (ErrFlag msg) \<Rightarrow> ExitStatus 2
        | Inr fl \<Rightarrow>
            (case LoadContext readFile unmarshal ''logs/inertia-context-2026-02-22.json'' of
               Inl err \<Rightarrow> ExitStatus 1
             | Inr ctx \<Rightarrow> Proceed fl ctx))"
  proof (cases "Parse atoi args defaultFlags")
    case (Inl e)
    then show ?thesis by (simp add: main_startup_def)
  next
    case (Inr fl)
    have "contextFile fl = ''logs/inertia-context-2026-02-22.json''"
      using Parse_keeps_contextFile [OF a Inr]
      by (simp add: defaultFlags_def defaultContextFile_def)
    then show ?thesis using Inr by (simp add: main_startup_def)
  qed
next
  have one: "parseOne atoi [''--context'', p] defaultFlags = Next (defaultFlags\<lparr>contextFile := p\<rparr>) []"
    by (simp add: parseOne_def flagName_def flagValue_def)
  have "Parse atoi [''--context'', p] defaultFlags = Inr (defaultFlags\<lparr>contextFile := p\<rparr>)"
    by (simp add: Parse.simps [of atoi "[''--context'', p]"] one Parse_Nil)
  then show "main_startup atoi readFile unmarshal [''--context'', p] =
       (case LoadContext readFile unmarshal p of
          Inl err \<Rightarrow> ExitStatus 1
        | Inr ctx \<Rightarrow> Proceed (defaultFlags\<lparr>contextFile := p\<rparr>) ctx)"
    by (simp add: main_startup_def)
qed

text \<open>No argument at all, and \<open>--dry-run\<close> alone: the run proceeds with the file at
  the built-in path.\<close>

theorem main_context_default_witness:
  "main_startup (\<lambda>s. None) onlyDefaultFile emptyContext [''--dry-run'']
     = Proceed (defaultFlags\<lparr>dryRun := True\<rparr>) (sampleContext [] [] [])
   \<and> main_startup (\<lambda>s. None) onlyDefaultFile emptyContext [''--context'', ''today.json'']
     = ExitStatus 1"
proof -
  have n: "\<forall>a \<in> set [''--dry-run'']. flagName a \<noteq> ''context''"
    by (simp add: flagName_def)
  have one: "parseOne (\<lambda>s. None) [''--dry-run''] defaultFlags = Next (defaultFlags\<lparr>dryRun := True\<rparr>) []"
    by (simp add: parseOne_def flagName_def flagValue_def)
  have p: "Parse (\<lambda>s. None) [''--dry-run''] defaultFlags = Inr (defaultFlags\<lparr>dryRun := True\<rparr>)"
    by (simp add: Parse.simps [of _ "[''--dry-run'']"] one Parse_Nil)
  have l: "LoadContext onlyDefaultFile emptyContext ''logs/inertia-context-2026-02-22.json''
      = Inr (sampleContext [] [] [])"
    by (simp add: LoadContext_def onlyDefaultFile_def emptyContext_def)
  have l2: "LoadContext onlyDefaultFile emptyContext ''today.json'' = Inl ''read file: no such file or directory''"
    by (simp add: LoadContext_def onlyDefaultFile_def)
  show ?thesis
    using main_context_default [of "[''--dry-run'']" "\<lambda>s. None" onlyDefaultFile emptyContext
        "''today.json''"] n p l l2
    by simp
qed

text \<open>
  The claim as stated fails: without any argument the run proceeds, with the context
  loaded from the built-in default path.
\<close>

theorem main_without_context_option:
  "main_startup (\<lambda>s. None) onlyDefaultFile emptyContext []
     = Proceed \<lparr>contextFile = ''logs/inertia-context-2026-02-22.json'', dryRun = False,
                maxConcurrency = 10\<rparr> (sampleContext [] [] [])"
  by (simp add: main_startup_def Parse_Nil defaultFlags_def
      defaultContextFile_def LoadContext_def onlyDefaultFile_def emptyContext_def)

section \<open>Parallel dispatcher: proofs\<close>

lemma count_update:
  assumes "i < length ws"
  shows "length (filter P (ws[i := w])) + (if P (ws ! i) then 1 else 0)
       = length (filter P ws) + (if P w then 1 else 0)"
  using assms
proof (induction ws arbitrary: i)
  case Nil
  then show ?case by simp
next
  case (Cons a ws)
  show ?case
  proof (cases i)
    case 0
    then show ?thesis by simp
  next
    case (Suc j)
    then have "j < length ws" using Cons.prems by simp
    from Cons.IH [OF this] show ?thesis using Suc by simp
  qed
qed

lemma holders_update:
  assumes "i < length (workers s)" and "workers s ! i = (t, p)"
  shows "length (filter (\<lambda>w. holding (snd w)) ((workers s)[i := (t, p')]))
           + (if holding p then 1 else 0)
       = length (filter (\<lambda>w. holding (snd w)) (workers s)) + (if holding p' then 1 else 0)"
  using count_update [OF assms(1), of "\<lambda>w. holding (snd w)" "(t, p')"] assms(2) by simp

text \<open>The slots in the channel are the slots that are held.\<close>

lemma step_sem_holders:
  assumes "ProcessTasksParallel_step K process s s'" and "sem s = holders s"
  shows "sem s' = holders s'"
  using assms
proof (cases rule: ProcessTasksParallel_step.cases)
  case (invoke i t)
  then show ?thesis
    using assms(2) holders_update [of i s t Started Invoked] by (simp add: holders_def)
next
  case (reply i t r d)
  then show ?thesis
    using assms(2) holders_update [of i s t Invoked "Decided d"] by (simp add: holders_def)
next
  case (publish i t d)
  then show ?thesis
    using assms(2) holders_update [of i s t "Decided d" Published] by (simp add: holders_def)
next
  case (release i t)
  then show ?thesis
    using assms(2) holders_update [of i s t Published Released] by (simp add: holders_def)
next
  case (finish i t)
  then show ?thesis
    using assms(2) holders_update [of i s t Released Exited] by (simp add: holders_def)
next
  case (panics i t r p)
  then show ?thesis
    using assms(2) holders_update [of i s t Invoked "Panicking p"] by (simp add: holders_def)
next
  case (unwind_release i t p)
  then show ?thesis
    using assms(2) holders_update [of i s t "Panicking p" "Unwound p"] by (simp add: holders_def)
qed (auto simp: holders_def)

lemma step_sem_bound:
  assumes "ProcessTasksParallel_step K process s s'" and "sem s \<le> K"
  shows "sem s' \<le> K"
  using assms by (cases rule: ProcessTasksParallel_step.cases) auto

lemma reachable_invariant:
  assumes "reachable K process tasks s"
  shows "sem s = holders s \<and> sem s \<le> K"
  using assms unfolding reachable_def
proof (induction rule: rtranclp_induct)
  case base
  show ?case by (simp add: ProcessTasksParallel_init_def holders_def)
next
  case (step s s')
  then show ?case using step_sem_holders step_sem_bound by blast
qed

lemma outstanding_le_holders: "outstanding s \<le> holders s"
proof -
  have "length (filter (\<lambda>w. snd w = Invoked) ws) \<le> length (filter (\<lambda>w. holding (snd w)) ws)"
    for ws :: "(Task \<times> place) list"
    by (induction ws) auto
  then show ?thesis by (simp add: outstanding_def holders_def le_SucI)
qed

text \<open>
  Claim C7.  In every state that an execution of the dispatcher with the bound \<open>K\<close>
  reaches, at most \<open>K\<close> tasks hold a slot of the semaphore, and so at most \<open>K\<close>
  invocations of the reasoning engine are outstanding.
\<close>

theorem concurrency_bound:
  assumes "reachable K process tasks s"
  shows "holders s \<le> K \<and> outstanding s \<le> K"
  using reachable_invariant [OF assms] outstanding_le_holders [of s] by simp

lemma firstInvoked_reachable: "reachable 1 processSample twoTasks firstInvoked"
proof -
  let ?t1 = "sampleTask ''1'' ''first'' None 0" and ?t2 = "sampleTask ''2'' ''second'' None 0"
  let ?s0 = "ProcessTasksParallel_init twoTasks"
  let ?s1 = "?s0\<lparr>wg := wg ?s0 + 1, pc := AtAcquire\<rparr>"
  let ?s2 = "?s1\<lparr>sem := sem ?s1 + 1, pc := AtGo\<rparr>"
  let ?s3 = "?s2\<lparr>pending := [?t2], workers := workers ?s2 @ [(?t1, Started)], pc := AtAdd\<rparr>"
  let ?s4 = "?s3\<lparr>workers := (workers ?s3)[0 := (?t1, Invoked)]\<rparr>"
  let ?s5 = "?s4\<lparr>wg := wg ?s4 + 1, pc := AtAcquire\<rparr>"
  have "ProcessTasksParallel_step 1 processSample ?s0 ?s1"
    by (rule ProcessTasksParallel_step.add [where t = ?t1 and ts = "[?t2]"])
      (simp_all add: ProcessTasksParallel_init_def twoTasks_def)
  moreover have "ProcessTasksParallel_step 1 processSample ?s1 ?s2"
    by (rule ProcessTasksParallel_step.acquire) (simp_all add: ProcessTasksParallel_init_def)
  moreover have "ProcessTasksParallel_step 1 processSample ?s2 ?s3"
    by (rule ProcessTasksParallel_step.spawn [where t = ?t1])
      (simp_all add: ProcessTasksParallel_init_def twoTasks_def)
  moreover have "ProcessTasksParallel_step 1 processSample ?s3 ?s4"
    by (rule ProcessTasksParallel_step.invoke [where t = ?t1])
      (simp_all add: ProcessTasksParallel_init_def)
  moreover have "ProcessTasksParallel_step 1 processSample ?s4 ?s5"
    by (rule ProcessTasksParallel_step.add [where t = ?t2 and ts = "[]"])
      (simp_all add: ProcessTasksParallel_init_def)
  ultimately have "(ProcessTasksParallel_step 1 processSample)\<^sup>*\<^sup>* ?s0 ?s5"
    by (meson rtranclp.rtrancl_into_rtrancl rtranclp.rtrancl_refl)
  moreover have "?s5 = firstInvoked"
    by (simp add: ProcessTasksParallel_init_def twoTasks_def firstInvoked_def)
  ultimately show ?thesis by (simp add: reachable_def)
qed

text \<open>In that state one invocation is outstanding, which is the bound.\<close>

theorem concurrency_bound_witness:
  "holders firstInvoked \<le> 1 \<and> outstanding firstInvoked \<le> 1 \<and> outstanding firstInvoked = 1"
  using concurrency_bound [OF firstInvoked_reachable]
  by (simp add: outstanding_def firstInvoked_def)

end
